theory Spec2Isabelle
  imports Complex_Main "HOL-Library.AList"
begin

section \<open>Government system integration layer: data model\<close>

text \<open>
  The development embeds \<^verbatim>\<open>government-integrations.py\<close>, class
  \<^verbatim>\<open>GovernmentSystemIntegrator\<close>. Conventions of the embedding:
  \<^item> a Python exception is a value \<open>Exn cls msg\<close>, where \<open>msg\<close> is what \<^verbatim>\<open>str(e)\<close> returns;
    a function that can raise returns \<open>exn + 'a\<close>, and one that also touches the
    integrator's state returns \<open>(exn + 'a) \<times> world\<close>, because state changes made before
    a raise persist;
  \<^item> a decoded JSON document is a value of type \<open>json\<close>; a Python \<^verbatim>\<open>dict\<close> with string
    keys is an association list in insertion order, read with \<open>map_of\<close> and written
    with \<open>AList.update\<close>;
  \<^item> a Python \<^verbatim>\<open>str\<close> is a \<open>string\<close> of code points below 256; what \<^verbatim>\<open>upper()\<close> returns
    can leave that range and is a list of code points;
  \<^item> a Python \<^verbatim>\<open>float\<close> is an exact rational: rounding is not modelled. This concerns the
    verification score and the contract total of the PSPC adapter;
  \<^item> \<^verbatim>\<open>datetime.utcnow()\<close> reads the next value of a clock the environment supplies,
    in microseconds.
\<close>

datatype SystemCode =
    CRA | ISED | ISC | PSPC
  | ON_ONBIS | QC_REQ | BC_REG | AB_REG
  | CCAB | SUPPLY_NATION

fun system_value :: "SystemCode \<Rightarrow> string" where
  "system_value CRA = ''cra''"
| "system_value ISED = ''ised''"
| "system_value ISC = ''isc''"
| "system_value PSPC = ''pspc''"
| "system_value ON_ONBIS = ''on_onbis''"
| "system_value QC_REQ = ''qc_req''"
| "system_value BC_REG = ''bc_reg''"
| "system_value AB_REG = ''ab_reg''"
| "system_value CCAB = ''ccab''"
| "system_value SUPPLY_NATION = ''supply_nation''"

record SystemEndpoint =
  base_url :: string
  auth_type :: string
  timeout :: nat
  retry_attempts :: nat
  cache_ttl :: int

definition SystemEndpoint_init :: "string \<Rightarrow> string \<Rightarrow> nat \<Rightarrow> SystemEndpoint" where
  "SystemEndpoint_init url auth t =
     \<lparr>base_url = url, auth_type = auth, timeout = t, retry_attempts = 3, cache_ttl = 3600\<rparr>"

fun endpoints :: "SystemCode \<Rightarrow> SystemEndpoint option" where
  "endpoints CRA = Some (SystemEndpoint_init ''https://api.cra-arc.gc.ca/v1'' ''oauth2'' 60)"
| "endpoints ISED = Some (SystemEndpoint_init ''https://ised-isde.canada.ca/api/v2'' ''api_key'' 30)"
| "endpoints ISC =
     Some (SystemEndpoint_init ''https://api.sac-isc.gc.ca/indigenous-verification/v1'' ''certificate'' 30)"
| "endpoints PSPC = Some (SystemEndpoint_init ''https://buyandsell.gc.ca/api/v1'' ''oauth2'' 30)"
| "endpoints ON_ONBIS = Some (SystemEndpoint_init ''https://www.appmjobs.com/onbis/api'' ''api_key'' 30)"
| "endpoints QC_REQ =
     Some (SystemEndpoint_init ''https://www.registreentreprises.gouv.qc.ca/api'' ''api_key'' 30)"
| "endpoints _ = None"

subsection \<open>Python values and exceptions\<close>

datatype json =
    JNull
  | JBool bool
  | JInt int
  | JFloat rat
  | JStr string
  | JList "json list"
  | JDict "(string \<times> json) list"

type_synonym dict = "(string \<times> json) list"

datatype exn_class =
  KeyError | AttributeError | TypeError | NotImplementedError | ClientError | DatabaseError

datatype exn = Exn exn_class string

fun exn_str :: "exn \<Rightarrow> string" where
  "exn_str (Exn c m) = m"

fun type_name :: "json \<Rightarrow> string" where
  "type_name JNull = ''NoneType''"
| "type_name (JBool b) = ''bool''"
| "type_name (JInt n) = ''int''"
| "type_name (JFloat r) = ''float''"
| "type_name (JStr s) = ''str''"
| "type_name (JList xs) = ''list''"
| "type_name (JDict d) = ''dict''"

definition quoted :: "string \<Rightarrow> string" where
  "quoted s = [CHR 0x27] @ s @ [CHR 0x27]"

definition no_attribute :: "json \<Rightarrow> string \<Rightarrow> exn" where
  "no_attribute v a =
     Exn AttributeError (quoted (type_name v) @ '' object has no attribute '' @ quoted a)"

definition not_iterable :: "json \<Rightarrow> exn" where
  "not_iterable v = Exn TypeError (quoted (type_name v) @ '' object is not iterable'')"

text \<open>\<^verbatim>\<open>d.get(k)\<close> and \<^verbatim>\<open>d.get(k, default)\<close> on a dict.\<close>

definition dict_get :: "dict \<Rightarrow> string \<Rightarrow> json" where
  "dict_get d k = (case map_of d k of None \<Rightarrow> JNull | Some v \<Rightarrow> v)"

definition dict_get_default :: "dict \<Rightarrow> string \<Rightarrow> json \<Rightarrow> json" where
  "dict_get_default d k dflt = (case map_of d k of None \<Rightarrow> dflt | Some v \<Rightarrow> v)"

text \<open>Truthiness of a value, as \<^verbatim>\<open>if x:\<close> and \<^verbatim>\<open>x or y\<close> test it.\<close>

fun truthy :: "json \<Rightarrow> bool" where
  "truthy JNull = False"
| "truthy (JBool b) = b"
| "truthy (JInt n) = (n \<noteq> 0)"
| "truthy (JFloat r) = (r \<noteq> 0)"
| "truthy (JStr s) = (s \<noteq> [])"
| "truthy (JList xs) = (xs \<noteq> [])"
| "truthy (JDict d) = (d \<noteq> [])"

definition py_or :: "json \<Rightarrow> json \<Rightarrow> json" where
  "py_or a b = (if truthy a then a else b)"

text \<open>
  \<^verbatim>\<open>str.upper()\<close> follows the Unicode case mapping. On the code points below 256 it
  moves the ASCII letters and the Latin-1 letters (224 to 254, without the division
  sign 247) down by 32, and sends three letters out of the range: the micro sign 181 to
  the Greek capital mu 924, the sharp s 223 to the two letters \<^verbatim>\<open>SS\<close>, and the y with
  diaeresis 255 to its capital 376. Every other code point below 256 stays.
\<close>

definition upper_code_point :: "nat \<Rightarrow> nat list" where
  "upper_code_point n =
     (if 97 \<le> n \<and> n \<le> 122 then [n - 32]
      else if n = 181 then [924]
      else if n = 223 then [83, 83]
      else if (224 \<le> n \<and> n \<le> 246) \<or> (248 \<le> n \<and> n \<le> 254) then [n - 32]
      else if n = 255 then [376]
      else [n])"

definition code_points :: "string \<Rightarrow> nat list" where
  "code_points s = map of_char s"

definition str_upper :: "string \<Rightarrow> nat list" where
  "str_upper s = concat (map upper_code_point (code_points s))"

text \<open>\<^verbatim>\<open>x.upper()\<close>: only a \<^verbatim>\<open>str\<close> has the method.\<close>

fun py_upper :: "json \<Rightarrow> exn + nat list" where
  "py_upper (JStr s) = Inr (str_upper s)"
| "py_upper v = Inl (no_attribute v ''upper'')"

text \<open>\<^verbatim>\<open>x >= k\<close> for an integer literal \<open>k\<close>: numbers and booleans compare, anything else raises.\<close>

fun py_ge_int :: "json \<Rightarrow> int \<Rightarrow> exn + bool" where
  "py_ge_int (JInt n) k = Inr (k \<le> n)"
| "py_ge_int (JFloat r) k = Inr (of_int k \<le> r)"
| "py_ge_int (JBool b) k = Inr (k \<le> (if b then 1 else 0))"
| "py_ge_int v k =
     Inl (Exn TypeError (quoted ''>='' @ '' not supported between instances of ''
            @ quoted (type_name v) @ '' and '' @ quoted ''int''))"

text \<open>
  Hashing: lists and dicts are unhashable; \<^verbatim>\<open>True\<close>, \<^verbatim>\<open>1\<close> and \<^verbatim>\<open>1.0\<close> are one key.
  \<open>py_key\<close> picks the representative of a hashable value.
\<close>

fun hashable :: "json \<Rightarrow> bool" where
  "hashable (JList xs) = False"
| "hashable (JDict d) = False"
| "hashable v = True"

fun py_key :: "json \<Rightarrow> json" where
  "py_key (JBool b) = JInt (if b then 1 else 0)"
| "py_key (JFloat r) = (if of_int \<lfloor>r\<rfloor> = r then JInt \<lfloor>r\<rfloor> else JFloat r)"
| "py_key v = v"

definition unhashable :: "json \<Rightarrow> exn" where
  "unhashable v = Exn TypeError (''unhashable type: '' @ quoted (type_name v))"

fun first_unhashable :: "json list \<Rightarrow> json option" where
  "first_unhashable [] = None"
| "first_unhashable (x # xs) = (if hashable x then first_unhashable xs else Some x)"

text \<open>\<^verbatim>\<open>set(x)\<close>, the set as a duplicate-free list.\<close>

fun py_set :: "json \<Rightarrow> exn + json list" where
  "py_set (JList xs) =
     (case first_unhashable xs of
        Some x \<Rightarrow> Inl (unhashable x)
      | None \<Rightarrow> Inr (remdups (map py_key xs)))"
| "py_set (JStr s) = Inr (remdups (map (\<lambda>c. JStr [c]) s))"
| "py_set (JDict d) = Inr (remdups (map (\<lambda>kv. JStr (fst kv)) d))"
| "py_set v = Inl (not_iterable v)"

subsection \<open>The verification result\<close>

type_synonym consolidated = "(json \<times> dict) list"

record verification_results =
  business_number :: string
  verification_timestamp :: int
  systems_checked :: "string list"
  consolidated_data :: consolidated
  red_flags :: "string list"
  verification_score :: rat

section \<open>Pure helpers of the integrator\<close>

definition determine_relevant_systems :: "string \<Rightarrow> SystemCode list" where
  "determine_relevant_systems bn =
     [CRA, ISED, ISC, PSPC]
     @ (if take 1 bn = ''1'' then [ON_ONBIS]
        else if take 1 bn = ''3'' then [QC_REQ]
        else [])"

definition encrypt_sensitive_data :: "json \<Rightarrow> json" where
  "encrypt_sensitive_data data = data"

text \<open>
  \<^verbatim>\<open>_merge_verification_data\<close>. The membership test hashes the key, so an unhashable
  \<^verbatim>\<open>system\<close> value raises before anything is written.
\<close>

definition set_field :: "json \<Rightarrow> string \<Rightarrow> json \<Rightarrow> consolidated \<Rightarrow> consolidated" where
  "set_field system k v c =
     (case map_of c system of
        None \<Rightarrow> c
      | Some section \<Rightarrow> AList.update system (AList.update k v section) c)"

definition merge_verification_data :: "consolidated \<Rightarrow> dict \<Rightarrow> exn + consolidated" where
  "merge_verification_data c new_data =
     (let system = dict_get new_data ''system'' in
      if \<not> hashable system then Inl (unhashable system)
      else
        let key = py_key system;
            c1 = (if key \<notin> set (map fst c) then AList.update key [] c else c)
        in Inr (fold (\<lambda>(k, v) acc. if k \<noteq> ''system'' then set_field key k v acc else acc)
                  new_data c1))"

text \<open>
  \<^verbatim>\<open>_normalize_address\<close>: the list of parts is built left to right, then joined with
  the bar, code point 124. \<^verbatim>\<open>replace(' ', '')\<close> removes the spaces, code point 32.
\<close>

definition strip_spaces :: "nat list \<Rightarrow> nat list" where
  "strip_spaces s = filter (\<lambda>n. n \<noteq> 32) s"

fun normalize_address :: "json \<Rightarrow> exn + nat list" where
  "normalize_address (JDict a) =
     (case py_upper (dict_get_default a ''streetName'' (JStr [])) of Inl e \<Rightarrow> Inl e
      | Inr street_name \<Rightarrow>
     (case py_upper (dict_get_default a ''city'' (JStr [])) of Inl e \<Rightarrow> Inl e
      | Inr city \<Rightarrow>
     (case py_upper (dict_get_default a ''province'' (JStr [])) of Inl e \<Rightarrow> Inl e
      | Inr province \<Rightarrow>
     (case py_upper (dict_get_default a ''postalCode'' (JStr [])) of Inl e \<Rightarrow> Inl e
      | Inr postal \<Rightarrow>
     (case dict_get_default a ''streetNumber'' (JStr []) of
        JStr street_number \<Rightarrow>
          Inr (code_points street_number @ [124] @ street_name @ [124] @ city @ [124]
               @ province @ [124] @ strip_spaces postal)
      | v \<Rightarrow> Inl (Exn TypeError (''sequence item 0: expected str instance, ''
                     @ type_name v @ '' found'')))))))"
| "normalize_address v = Inl (no_attribute v ''get'')"

text \<open>\<^verbatim>\<open>_calculate_verification_score\<close>; \<open>base_score\<close> is the value before the clamp.\<close>

definition base_score :: "verification_results \<Rightarrow> rat" where
  "base_score results =
     1 - of_int (4 - int (length (systems_checked results))) * (1 / 10)
       - of_nat (length (red_flags results)) * (15 / 100)"

definition calculate_verification_score :: "verification_results \<Rightarrow> rat" where
  "calculate_verification_score results = max 0 (min 1 (base_score results))"


text \<open>
  \<^verbatim>\<open>str(x)\<close> inside an f-string. The integrator formats only values it has just compared
  equal to a string literal, so only the \<^verbatim>\<open>str\<close> case is ever evaluated.
\<close>

fun py_str :: "json \<Rightarrow> string" where
  "py_str (JStr s) = s"
| "py_str v = type_name v"

definition fermee :: string where
  "fermee = ''ferm'' @ [CHR 0xE9] @ ''e''"

subsection \<open>The consistency rules of \<^verbatim>\<open>_check_data_inconsistencies\<close>\<close>

definition address_rule :: "consolidated \<Rightarrow> dict \<Rightarrow> SystemCode \<Rightarrow> exn + string list" where
  "address_rule c new_data system =
     (case map_of c (JStr ''CRA'') of
        None \<Rightarrow> Inr []
      | Some cra \<Rightarrow>
          if system = ISED then
            (let cra_address = dict_get_default cra ''physical_address'' (JDict []);
                 ised_address = dict_get_default new_data ''registered_office'' (JDict [])
             in if truthy cra_address \<and> truthy ised_address then
                  (case normalize_address cra_address of Inl e \<Rightarrow> Inl e
                   | Inr a \<Rightarrow>
                  (case normalize_address ised_address of Inl e \<Rightarrow> Inl e
                   | Inr b \<Rightarrow>
                     Inr (if a \<noteq> b
                          then [''Inconsistent addresses between CRA and ISED records'']
                          else [])))
                else Inr [])
          else Inr [])"

definition status_rule :: "consolidated \<Rightarrow> dict \<Rightarrow> string list" where
  "status_rule c new_data =
     (case map_of c (JStr ''CRA'') of
        None \<Rightarrow> []
      | Some cra \<Rightarrow>
          if dict_get new_data ''system'' \<in> set [JStr ''ISED'', JStr ''ON_ONBIS'', JStr ''QC_REQ'']
          then
            (let cra_status = dict_get cra ''business_status'';
                 other_status =
                   py_or (py_or (dict_get new_data ''business_status'')
                                (dict_get new_data ''corporate_status''))
                         (dict_get new_data ''statut'')
             in if cra_status = JStr ''active''
                   \<and> other_status \<in> set [JStr ''dissolved'', JStr ''inactive'', JStr fermee]
                then [''Business active with CRA but '' @ py_str other_status @ '' with ''
                        @ py_str (dict_get new_data ''system'')]
                else [])
          else [])"

definition ownership_rule :: "consolidated \<Rightarrow> exn + string list" where
  "ownership_rule c =
     (case map_of c (JStr ''ISC'') of
        None \<Rightarrow> Inr []
      | Some isc \<Rightarrow>
     (case map_of c (JStr ''ISED'') of
        None \<Rightarrow> Inr []
      | Some ised \<Rightarrow>
     (case py_ge_int (dict_get_default isc ''indigenous_ownership_percentage'' (JInt 0)) 51 of
        Inl e \<Rightarrow> Inl e
      | Inr False \<Rightarrow> Inr []
      | Inr True \<Rightarrow>
     (case py_set (dict_get_default isc ''verified_owners'' (JList [])) of
        Inl e \<Rightarrow> Inl e
      | Inr verified_owners \<Rightarrow>
     (case py_set (dict_get_default ised ''directors'' (JList [])) of
        Inl e \<Rightarrow> Inl e
      | Inr all_directors \<Rightarrow>
          if verified_owners \<noteq> [] \<and> all_directors \<noteq> [] then
            (let overlap = length (filter (\<lambda>x. x \<in> set all_directors) verified_owners)
             in Inr (if (of_nat overlap :: rat) < of_nat (length all_directors) / 2
                     then [''Majority Indigenous ownership but minority Indigenous directors'']
                     else []))
          else Inr [])))))"

definition check_data_inconsistencies ::
    "consolidated \<Rightarrow> dict \<Rightarrow> SystemCode \<Rightarrow> exn + string list" where
  "check_data_inconsistencies c new_data system =
     (case address_rule c new_data system of Inl e \<Rightarrow> Inl e
      | Inr address_flags \<Rightarrow>
          let status_flags = status_rule c new_data in
          (case ownership_rule c of Inl e \<Rightarrow> Inl e
           | Inr ownership_flags \<Rightarrow> Inr (address_flags @ status_flags @ ownership_flags)))"


section \<open>Environment and state of the integrator\<close>

text \<open>
  The environment is everything outside the integrator: the clock, the registries
  behind the HTTP session, the database and the hash function. A reply may depend on
  how many requests were sent before, so a registry can fail once and answer later;
  likewise the database can fail on any of its calls. A reply is the decoded body
  (\<^verbatim>\<open>response.json()\<close>, for Quebec \<^verbatim>\<open>xmltodict.parse\<close>) or the exception the request,
  its timeout or the decoding raised.
\<close>

datatype request = HttpGet string | HttpPost string json

datatype db_stmt =
    UpsertFederalSystemData string string string dict string int string
  | InsertIntegrationLog string string string bool "string option" int int

record env =
  clock :: "nat \<Rightarrow> int"
  net_reply :: "nat \<Rightarrow> request \<Rightarrow> exn + json"
  db_fault :: "nat \<Rightarrow> exn option"
  sha256_hex :: "verification_results \<Rightarrow> string"

record world =
  cache :: "(string \<times> dict \<times> int) list"
  clock_reads :: nat
  net_log :: "request list"
  db_attempts :: nat
  db_rows :: "db_stmt list"

definition utcnow :: "env \<Rightarrow> world \<Rightarrow> int \<times> world" where
  "utcnow E w = (clock E (clock_reads w), w\<lparr>clock_reads := Suc (clock_reads w)\<rparr>)"

definition session_request :: "env \<Rightarrow> request \<Rightarrow> world \<Rightarrow> (exn + json) \<times> world" where
  "session_request E req w =
     (net_reply E (length (net_log w)) req, w\<lparr>net_log := net_log w @ [req]\<rparr>)"

definition db_execute :: "env \<Rightarrow> db_stmt \<Rightarrow> world \<Rightarrow> (exn + unit) \<times> world" where
  "db_execute E stmt w =
     (case db_fault E (db_attempts w) of
        Some e \<Rightarrow> (Inl e, w\<lparr>db_attempts := Suc (db_attempts w)\<rparr>)
      | None \<Rightarrow>
          (Inr (), w\<lparr>db_attempts := Suc (db_attempts w), db_rows := db_rows w @ [stmt]\<rparr>))"

definition timedelta_seconds :: "int \<Rightarrow> int" where
  "timedelta_seconds n = n * 1000000"

section \<open>Adapters\<close>

text \<open>
  Each adapter sends one request and builds its record from the decoded body.
  The record builders are pure; \<open>data.get\<close> raises when the body is not an object.
\<close>

definition cra_record :: "json \<Rightarrow> exn + dict" where
  "cra_record data =
     (case data of
        JDict d \<Rightarrow> Inr
          [(''system'', JStr ''CRA''),
           (''business_status'', dict_get d ''businessStatus''),
           (''registration_date'', dict_get d ''registrationDate''),
           (''business_type'', dict_get d ''businessType''),
           (''gst_registered'', dict_get d ''gstRegistered''),
           (''payroll_account'', dict_get d ''hasPayrollAccount''),
           (''tax_filing_status'', dict_get d ''taxFilingStatus''),
           (''directors'', encrypt_sensitive_data (dict_get_default d ''directors'' (JList []))),
           (''mailing_address'', dict_get d ''mailingAddress''),
           (''physical_address'', dict_get d ''physicalAddress'')]
      | v \<Rightarrow> Inl (no_attribute v ''get''))"

definition ised_record :: "json \<Rightarrow> exn + dict" where
  "ised_record data =
     (case data of
        JDict d \<Rightarrow> Inr
          [(''system'', JStr ''ISED''),
           (''corporate_name'', dict_get d ''corporateName''),
           (''incorporation_date'', dict_get d ''incorporationDate''),
           (''jurisdiction'', dict_get d ''jurisdiction''),
           (''corporate_status'', dict_get d ''status''),
           (''share_structure'', dict_get d ''shareStructure''),
           (''directors'', encrypt_sensitive_data (dict_get_default d ''directors'' (JList []))),
           (''officers'', encrypt_sensitive_data (dict_get_default d ''officers'' (JList []))),
           (''registered_office'', dict_get d ''registeredOffice'')]
      | v \<Rightarrow> Inl (no_attribute v ''get''))"

definition isc_record :: "json \<Rightarrow> exn + dict" where
  "isc_record data =
     (case data of
        JDict d \<Rightarrow> Inr
          [(''system'', JStr ''ISC''),
           (''indigenous_certification'', dict_get d ''certificationStatus''),
           (''certification_number'', dict_get d ''certificationNumber''),
           (''certification_date'', dict_get d ''certificationDate''),
           (''indigenous_ownership_percentage'', dict_get d ''indigenousOwnershipPercentage''),
           (''verified_owners'',
              encrypt_sensitive_data (dict_get_default d ''verifiedOwners'' (JList []))),
           (''community_affiliations'', dict_get d ''communityAffiliations''),
           (''certification_type'', dict_get d ''certificationType'')]
      | v \<Rightarrow> Inl (no_attribute v ''get''))"

text \<open>The PSPC adapter iterates the contracts, sums their values and slices the first ten.\<close>

fun py_iter :: "json \<Rightarrow> exn + json list" where
  "py_iter (JList xs) = Inr xs"
| "py_iter (JStr s) = Inr (map (\<lambda>c. JStr [c]) s)"
| "py_iter (JDict d) = Inr (map (\<lambda>kv. JStr (fst kv)) d)"
| "py_iter v = Inl (not_iterable v)"

fun py_get :: "json \<Rightarrow> string \<Rightarrow> json \<Rightarrow> exn + json" where
  "py_get (JDict d) k dflt = Inr (dict_get_default d k dflt)"
| "py_get v k dflt = Inl (no_attribute v ''get'')"

definition unsupported_add :: "json \<Rightarrow> json \<Rightarrow> exn" where
  "unsupported_add a b =
     Exn TypeError (''unsupported operand type(s) for +: '' @ quoted (type_name a)
                    @ '' and '' @ quoted (type_name b))"

fun py_add :: "json \<Rightarrow> json \<Rightarrow> exn + json" where
  "py_add (JInt a) (JInt b) = Inr (JInt (a + b))"
| "py_add (JInt a) (JBool b) = Inr (JInt (a + (if b then 1 else 0)))"
| "py_add (JInt a) (JFloat b) = Inr (JFloat (of_int a + b))"
| "py_add (JFloat a) (JInt b) = Inr (JFloat (a + of_int b))"
| "py_add (JFloat a) (JBool b) = Inr (JFloat (a + (if b then 1 else 0)))"
| "py_add (JFloat a) (JFloat b) = Inr (JFloat (a + b))"
| "py_add a b = Inl (unsupported_add a b)"

fun sum_values :: "json \<Rightarrow> json list \<Rightarrow> exn + json" where
  "sum_values acc [] = Inr acc"
| "sum_values acc (c # cs) =
     (case py_get c ''value'' (JInt 0) of Inl e \<Rightarrow> Inl e
      | Inr v \<Rightarrow>
     (case py_add acc v of Inl e \<Rightarrow> Inl e
      | Inr acc' \<Rightarrow> sum_values acc' cs))"

definition has_status :: "string \<Rightarrow> json \<Rightarrow> bool" where
  "has_status st c = (case c of JDict d \<Rightarrow> dict_get d ''status'' = JStr st | _ \<Rightarrow> False)"

text \<open>
  \<^verbatim>\<open>contracts[:10]\<close>. A list and a string are sliced; a dict is subscripted with the
  slice as key, which Python 3.11 refuses as unhashable.
\<close>

fun first_ten :: "json \<Rightarrow> exn + json" where
  "first_ten (JList xs) = Inr (JList (take 10 xs))"
| "first_ten (JStr s) = Inr (JStr (take 10 s))"
| "first_ten v = Inl (Exn TypeError (''unhashable type: '' @ quoted ''slice''))"

definition pspc_record :: "json \<Rightarrow> exn + dict" where
  "pspc_record data =
     (case data of
        JDict d \<Rightarrow>
          (let contracts = dict_get_default d ''contracts'' (JList []) in
           case py_iter contracts of Inl e \<Rightarrow> Inl e
           | Inr cs \<Rightarrow>
          (case sum_values (JInt 0) cs of Inl e \<Rightarrow> Inl e
           | Inr total_value \<Rightarrow>
          (let completed_contracts = filter (has_status ''completed'') cs in
           case first_ten contracts of Inl e \<Rightarrow> Inl e
           | Inr recent \<Rightarrow> Inr
              [(''system'', JStr ''PSPC''),
               (''supplier_status'', dict_get d ''supplierStatus''),
               (''registration_date'', dict_get d ''registrationDate''),
               (''total_contracts'', JInt (int (length cs))),
               (''total_contract_value'', total_value),
               (''active_contracts'', JInt (int (length (filter (has_status ''active'') cs)))),
               (''completed_contracts'', JInt (int (length completed_contracts))),
               (''average_performance_rating'', dict_get d ''averagePerformanceRating''),
               (''integrity_status'', dict_get d ''integrityStatus''),
               (''security_clearance_level'', dict_get d ''securityClearanceLevel''),
               (''recent_contracts'', recent)])))
      | v \<Rightarrow> Inl (no_attribute v ''get''))"

definition on_onbis_record :: "json \<Rightarrow> exn + dict" where
  "on_onbis_record data =
     (case data of
        JDict d \<Rightarrow> Inr
          [(''system'', JStr ''ON_ONBIS''),
           (''ontario_corp_number'', dict_get d ''ontarioCorporationNumber''),
           (''business_name'', dict_get d ''businessName''),
           (''business_status'', dict_get d ''status''),
           (''registration_date'', dict_get d ''registrationDate''),
           (''business_activity'', dict_get d ''primaryActivity''),
           (''registered_address'', dict_get d ''registeredAddress''),
           (''directors'', encrypt_sensitive_data (dict_get_default d ''directors'' (JList [])))]
      | v \<Rightarrow> Inl (no_attribute v ''get''))"

text \<open>\<^verbatim>\<open>xmltodict.parse(xml_data)['entreprise']\<close>: the parsed document is an object.\<close>

fun py_getitem :: "json \<Rightarrow> string \<Rightarrow> exn + json" where
  "py_getitem (JDict d) k =
     (case map_of d k of None \<Rightarrow> Inl (Exn KeyError (quoted k)) | Some v \<Rightarrow> Inr v)"
| "py_getitem (JList xs) k =
     Inl (Exn TypeError ''list indices must be integers or slices, not str'')"
| "py_getitem (JStr s) k =
     Inl (Exn TypeError (''string indices must be integers, not '' @ quoted ''str''))"
| "py_getitem v k = Inl (Exn TypeError (quoted (type_name v) @ '' object is not subscriptable''))"

definition qc_req_record :: "json \<Rightarrow> exn + dict" where
  "qc_req_record doc =
     (case py_getitem doc ''entreprise'' of Inl e \<Rightarrow> Inl e
      | Inr data \<Rightarrow>
     (case data of
        JDict d \<Rightarrow> Inr
          [(''system'', JStr ''QC_REQ''),
           (''neq'', dict_get d ''NEQ''),
           (''nom_entreprise'', dict_get d ''nomEntreprise''),
           (''statut'', dict_get d ''statut''),
           (''date_immatriculation'', dict_get d ''dateImmatriculation''),
           (''forme_juridique'', dict_get d ''formeJuridique''),
           (''adresse_domicile'', dict_get d ''adresseDomicile''),
           (''administrateurs'',
              encrypt_sensitive_data (dict_get_default d ''administrateurs'' (JList [])))]
      | v \<Rightarrow> Inl (no_attribute v ''get'')))"


text \<open>The requests. ISED is addressed by the first nine characters of the business number.\<close>

definition fetch :: "env \<Rightarrow> request \<Rightarrow> (json \<Rightarrow> exn + dict) \<Rightarrow> world \<Rightarrow> (exn + dict) \<times> world" where
  "fetch E req build w =
     (case session_request E req w of
        (Inl e, w') \<Rightarrow> (Inl e, w')
      | (Inr data, w') \<Rightarrow> (build data, w'))"

definition verify_cra :: "env \<Rightarrow> string \<Rightarrow> SystemEndpoint \<Rightarrow> world \<Rightarrow> (exn + dict) \<times> world" where
  "verify_cra E bn endpoint w =
     fetch E (HttpGet (base_url endpoint @ ''/business/'' @ bn)) cra_record w"

definition verify_ised :: "env \<Rightarrow> string \<Rightarrow> SystemEndpoint \<Rightarrow> world \<Rightarrow> (exn + dict) \<times> world" where
  "verify_ised E bn endpoint w =
     (let corp_number = take 9 bn in
      fetch E (HttpGet (base_url endpoint @ ''/corporations/'' @ corp_number)) ised_record w)"

definition verify_isc :: "env \<Rightarrow> string \<Rightarrow> SystemEndpoint \<Rightarrow> world \<Rightarrow> (exn + dict) \<times> world" where
  "verify_isc E bn endpoint w =
     fetch E (HttpPost (base_url endpoint @ ''/verify'') (JDict [(''businessNumber'', JStr bn)]))
       isc_record w"

definition verify_pspc :: "env \<Rightarrow> string \<Rightarrow> SystemEndpoint \<Rightarrow> world \<Rightarrow> (exn + dict) \<times> world" where
  "verify_pspc E bn endpoint w =
     fetch E (HttpGet (base_url endpoint @ ''/suppliers/'' @ bn @ ''/contracts'')) pspc_record w"

text \<open>
  \<^verbatim>\<open>_verify_provincial\<close> is called for Ontario and Quebec only; its two branches are
  selected by the system code.
\<close>

definition verify_provincial ::
    "env \<Rightarrow> string \<Rightarrow> SystemCode \<Rightarrow> SystemEndpoint \<Rightarrow> world \<Rightarrow> (exn + dict) \<times> world" where
  "verify_provincial E bn system endpoint w =
     (if system = ON_ONBIS
      then fetch E (HttpGet (base_url endpoint @ ''/corporation/'' @ bn)) on_onbis_record w
      else fetch E (HttpGet (base_url endpoint @ ''/entreprise/'' @ bn)) qc_req_record w)"

section \<open>Audit trail\<close>

definition log_integration ::
    "env \<Rightarrow> SystemCode \<Rightarrow> string \<Rightarrow> bool \<Rightarrow> string option \<Rightarrow> world \<Rightarrow> (exn + unit) \<times> world" where
  "log_integration E system bn success error w =
     (let (initiated_at, w1) = utcnow E w;
          (completed_at, w2) = utcnow E w1
      in db_execute E
           (InsertIntegrationLog bn (system_value system) ''verify'' success error
              initiated_at completed_at) w2)"

text \<open>
  \<^verbatim>\<open>_store_verification_results\<close>: one upsert per entry of \<^verbatim>\<open>systems_checked\<close>. The
  snapshot is looked up in \<^verbatim>\<open>consolidated_data\<close> under that entry, with \<^verbatim>\<open>{}\<close> as default.
\<close>

definition snapshot_of :: "consolidated \<Rightarrow> string \<Rightarrow> dict" where
  "snapshot_of c system = (case map_of c (JStr system) of None \<Rightarrow> [] | Some section \<Rightarrow> section)"

fun store_loop ::
    "env \<Rightarrow> string \<Rightarrow> verification_results \<Rightarrow> string \<Rightarrow> string list \<Rightarrow> world
       \<Rightarrow> (exn + unit) \<times> world" where
  "store_loop E bn results data_hash [] w = (Inr (), w)"
| "store_loop E bn results data_hash (system # rest) w =
     (let (last_sync_at, w1) = utcnow E w in
      case db_execute E
             (UpsertFederalSystemData bn system bn
                (snapshot_of (consolidated_data results) system) data_hash last_sync_at
                ''success'') w1 of
        (Inl e, w2) \<Rightarrow> (Inl e, w2)
      | (Inr u, w2) \<Rightarrow> store_loop E bn results data_hash rest w2)"

definition store_verification_results ::
    "env \<Rightarrow> string \<Rightarrow> verification_results \<Rightarrow> world \<Rightarrow> (exn + unit) \<times> world" where
  "store_verification_results E bn results w =
     (let data_hash = sha256_hex E results
      in store_loop E bn results data_hash (systems_checked results) w)"

section \<open>Verification with one system\<close>

fun member_name :: "SystemCode \<Rightarrow> string" where
  "member_name CRA = ''CRA''"
| "member_name ISED = ''ISED''"
| "member_name ISC = ''ISC''"
| "member_name PSPC = ''PSPC''"
| "member_name ON_ONBIS = ''ON_ONBIS''"
| "member_name QC_REQ = ''QC_REQ''"
| "member_name BC_REG = ''BC_REG''"
| "member_name AB_REG = ''AB_REG''"
| "member_name CCAB = ''CCAB''"
| "member_name SUPPLY_NATION = ''SUPPLY_NATION''"

definition endpoint_key_error :: "SystemCode \<Rightarrow> exn" where
  "endpoint_key_error system =
     Exn KeyError (''<SystemCode.'' @ member_name system @ '': ''
                   @ quoted (system_value system) @ ''>'')"

definition cache_key :: "SystemCode \<Rightarrow> string \<Rightarrow> string" where
  "cache_key system bn = system_value system @ '':'' @ bn"

text \<open>The \<^verbatim>\<open>try\<close> body up to the adapter's return.\<close>

definition call_adapter ::
    "env \<Rightarrow> string \<Rightarrow> SystemCode \<Rightarrow> SystemEndpoint \<Rightarrow> world \<Rightarrow> (exn + dict) \<times> world" where
  "call_adapter E bn system endpoint w =
     (if system = CRA then verify_cra E bn endpoint w
      else if system = ISED then verify_ised E bn endpoint w
      else if system = ISC then verify_isc E bn endpoint w
      else if system = PSPC then verify_pspc E bn endpoint w
      else if system \<in> set [ON_ONBIS, QC_REQ] then verify_provincial E bn system endpoint w
      else (Inl (Exn NotImplementedError
                   (''System SystemCode.'' @ member_name system @ '' not implemented'')), w))"

text \<open>The \<^verbatim>\<open>except\<close> clause: log the failure, then re-raise.\<close>

definition on_exception ::
    "env \<Rightarrow> string \<Rightarrow> SystemCode \<Rightarrow> exn \<Rightarrow> world \<Rightarrow> (exn + dict) \<times> world" where
  "on_exception E bn system e w =
     (case log_integration E system bn False (Some (exn_str e)) w of
        (Inl e', w') \<Rightarrow> (Inl e', w')
      | (Inr u, w') \<Rightarrow> (Inl e, w'))"

text \<open>Everything after the cache check: the API call, the cache write and the log.\<close>

definition call_api :: "env \<Rightarrow> string \<Rightarrow> SystemCode \<Rightarrow> world \<Rightarrow> (exn + dict) \<times> world" where
  "call_api E bn system w =
     (case endpoints system of
        None \<Rightarrow> (Inl (endpoint_key_error system), w)
      | Some endpoint \<Rightarrow>
     (case call_adapter E bn system endpoint w of
        (Inl e, w1) \<Rightarrow> on_exception E bn system e w1
      | (Inr data, w1) \<Rightarrow>
          (let (stored_at, w2) = utcnow E w1;
               w3 = w2\<lparr>cache := AList.update (cache_key system bn) (data, stored_at) (cache w2)\<rparr>
           in case log_integration E system bn True None w3 of
                (Inl e, w4) \<Rightarrow> on_exception E bn system e w4
              | (Inr u, w4) \<Rightarrow> (Inr data, w4))))"

definition verify_with_system ::
    "env \<Rightarrow> string \<Rightarrow> SystemCode \<Rightarrow> world \<Rightarrow> (exn + dict) \<times> world" where
  "verify_with_system E bn system w =
     (case map_of (cache w) (cache_key system bn) of
        Some (cached_data, cached_time) \<Rightarrow>
          (let (now, w1) = utcnow E w in
           case endpoints system of
             None \<Rightarrow> (Inl (endpoint_key_error system), w1)
           | Some endpoint \<Rightarrow>
               if now - cached_time < timedelta_seconds (cache_ttl endpoint)
               then (Inr cached_data, w1)
               else call_api E bn system w1)
      | None \<Rightarrow> call_api E bn system w)"

section \<open>The orchestrator\<close>

text \<open>
  \<^verbatim>\<open>asyncio.gather(*tasks, return_exceptions=True)\<close>: one outcome per task, in the order
  of the tasks. The tasks run here one after the other in that order, which is one of
  the schedules of the event loop; the tasks of one run use different cache keys.
\<close>

fun gather :: "env \<Rightarrow> string \<Rightarrow> SystemCode list \<Rightarrow> world \<Rightarrow> (exn + dict) list \<times> world" where
  "gather E bn [] w = ([], w)"
| "gather E bn (system # rest) w =
     (let (r, w1) = verify_with_system E bn system w;
          (rs, w2) = gather E bn rest w1
      in (r # rs, w2))"

definition failure_flag :: "SystemCode \<Rightarrow> exn \<Rightarrow> string" where
  "failure_flag system e = ''Failed to verify with '' @ system_value system @ '': '' @ exn_str e"

text \<open>One iteration of the loop over \<^verbatim>\<open>zip(systems_to_check, results)\<close>.\<close>

definition process_result ::
    "verification_results \<Rightarrow> SystemCode \<times> (exn + dict) \<Rightarrow> exn + verification_results" where
  "process_result vr sr =
     (case sr of
        (system, Inl e) \<Rightarrow> Inr (vr\<lparr>red_flags := red_flags vr @ [failure_flag system e]\<rparr>)
      | (system, Inr result) \<Rightarrow>
          (let vr1 = vr\<lparr>systems_checked := systems_checked vr @ [system_value system]\<rparr> in
           case merge_verification_data (consolidated_data vr1) result of Inl e \<Rightarrow> Inl e
           | Inr c \<Rightarrow>
          (let vr2 = vr1\<lparr>consolidated_data := c\<rparr> in
           case check_data_inconsistencies (consolidated_data vr2) result system of
             Inl e \<Rightarrow> Inl e
           | Inr inconsistencies \<Rightarrow>
               Inr (vr2\<lparr>red_flags := red_flags vr2 @ inconsistencies\<rparr>))))"

fun process_results ::
    "verification_results \<Rightarrow> (SystemCode \<times> (exn + dict)) list \<Rightarrow> exn + verification_results" where
  "process_results vr [] = Inr vr"
| "process_results vr (sr # rest) =
     (case process_result vr sr of Inl e \<Rightarrow> Inl e
      | Inr vr' \<Rightarrow> process_results vr' rest)"

definition verify_business_across_systems ::
    "env \<Rightarrow> string \<Rightarrow> world \<Rightarrow> (exn + verification_results) \<times> world" where
  "verify_business_across_systems E bn w =
     (let (started_at, w0) = utcnow E w;
          verification_results =
            \<lparr>business_number = bn, verification_timestamp = started_at, systems_checked = [],
             consolidated_data = [], red_flags = [], verification_score = 0\<rparr>;
          systems_to_check = determine_relevant_systems bn;
          (results, w1) = gather E bn systems_to_check w0
      in case process_results verification_results (zip systems_to_check results) of
           Inl e \<Rightarrow> (Inl e, w1)
         | Inr vr \<Rightarrow>
             (let scored = vr\<lparr>verification_score := calculate_verification_score vr\<rparr> in
              case store_verification_results E bn scored w1 of
                (Inl e, w2) \<Rightarrow> (Inl e, w2)
              | (Inr u, w2) \<Rightarrow> (Inr scored, w2)))"

definition initial_world :: world where
  "initial_world = \<lparr>cache = [], clock_reads = 0, net_log = [], db_attempts = 0, db_rows = []\<rparr>"


section \<open>Notions used in the statements\<close>

text \<open>
  The outcomes of one run of \<^verbatim>\<open>verify_business_across_systems\<close>: the selected systems
  zipped with what \<^verbatim>\<open>asyncio.gather\<close> returned for them, as the loop of the orchestrator
  sees them.
\<close>

definition adapter_outcomes :: "env \<Rightarrow> string \<Rightarrow> world \<Rightarrow> (SystemCode \<times> (exn + dict)) list" where
  "adapter_outcomes E bn w =
     (let systems_to_check = determine_relevant_systems bn
      in zip systems_to_check (fst (gather E bn systems_to_check (snd (utcnow E w)))))"

fun succeeded :: "(SystemCode \<times> (exn + dict)) list \<Rightarrow> SystemCode list" where
  "succeeded [] = []"
| "succeeded ((system, Inl e) # rest) = succeeded rest"
| "succeeded ((system, Inr result) # rest) = system # succeeded rest"

fun failures :: "(SystemCode \<times> (exn + dict)) list \<Rightarrow> (SystemCode \<times> exn) list" where
  "failures [] = []"
| "failures ((system, Inl e) # rest) = (system, e) # failures rest"
| "failures ((system, Inr result) # rest) = failures rest"

definition is_failure_flag :: "string \<Rightarrow> bool" where
  "is_failure_flag f = (take 22 f = ''Failed to verify with '')"

text \<open>The state in which the loop over the outcomes starts, after all adapter calls.\<close>

definition world_after_gather :: "env \<Rightarrow> string \<Rightarrow> world \<Rightarrow> world" where
  "world_after_gather E bn w =
     snd (gather E bn (determine_relevant_systems bn) (snd (utcnow E w)))"

text \<open>The result record before the loop, and the record with its score filled in.\<close>

definition empty_results :: "env \<Rightarrow> string \<Rightarrow> world \<Rightarrow> verification_results" where
  "empty_results E bn w =
     \<lparr>business_number = bn, verification_timestamp = fst (utcnow E w), systems_checked = [],
      consolidated_data = [], red_flags = [], verification_score = 0\<rparr>"

definition scored :: "verification_results \<Rightarrow> verification_results" where
  "scored vr = vr\<lparr>verification_score := calculate_verification_score vr\<rparr>"

text \<open>
  The cache is written by \<^verbatim>\<open>_verify_with_system\<close> only, so the entry under the key of a
  system holds a record of that system. The name a record carries in its
  \<^verbatim>\<open>system\<close> field is the system's value in upper case.
\<close>

definition ascii_upper :: "char \<Rightarrow> char" where
  "ascii_upper c =
     (case map_of (zip ''abcdefghijklmnopqrstuvwxyz'' ''ABCDEFGHIJKLMNOPQRSTUVWXYZ'') c of
        Some u \<Rightarrow> u
      | None \<Rightarrow> c)"

definition key_system_name :: "string \<Rightarrow> string" where
  "key_system_name k = map ascii_upper (takeWhile (\<lambda>c. c \<noteq> CHR '':'') k)"

definition cache_wf :: "world \<Rightarrow> bool" where
  "cache_wf w =
     list_all (\<lambda>(k, data, stored_at). dict_get data ''system'' = JStr (key_system_name k))
       (cache w)"

text \<open>Every returned record carries the name of the system it was requested from.\<close>

definition well_labelled :: "(SystemCode \<times> (exn + dict)) list \<Rightarrow> bool" where
  "well_labelled srs =
     list_all (\<lambda>(s, r). case r of Inl e \<Rightarrow> True
                 | Inr d \<Rightarrow> dict_get d ''system'' = JStr (member_name s)) srs"

section \<open>Reference definitions and example inputs\<close>

text \<open>
  The normal form the specification describes for the address rule: every part
  case-folded, runs of spaces collapsed, and the postal code without spaces. It is
  used only to compare \<open>normalize_address\<close> with the specification.
\<close>

fun collapse_spaces :: "nat list \<Rightarrow> nat list" where
  "collapse_spaces [] = []"
| "collapse_spaces [c] = [c]"
| "collapse_spaces (a # b # cs) =
     (if a = 32 \<and> b = 32 then collapse_spaces (b # cs)
      else a # collapse_spaces (b # cs))"

definition spec_field :: "dict \<Rightarrow> string \<Rightarrow> nat list" where
  "spec_field a k =
     (case map_of a k of Some (JStr s) \<Rightarrow> collapse_spaces (str_upper s) | _ \<Rightarrow> [])"

definition spec_normalize_address :: "dict \<Rightarrow> nat list list" where
  "spec_normalize_address a =
     [spec_field a ''streetNumber'', spec_field a ''streetName'', spec_field a ''city'',
      spec_field a ''province'', strip_spaces (spec_field a ''postalCode'')]"

definition example_address :: "string \<Rightarrow> dict" where
  "example_address street =
     [(''streetNumber'', JStr ''100''), (''streetName'', JStr street),
      (''city'', JStr ''Ottawa''), (''province'', JStr ''ON''),
      (''postalCode'', JStr ''K1A 0B1'')]"

definition example_city_address :: "string \<Rightarrow> dict" where
  "example_city_address city =
     [(''streetNumber'', JStr ''100''), (''streetName'', JStr ''Main St''),
      (''city'', JStr city), (''province'', JStr ''QC''), (''postalCode'', JStr ''H2Y 1C6'')]"

definition example_isc_section :: "int \<Rightarrow> dict" where
  "example_isc_section percentage =
     [(''indigenous_ownership_percentage'', JInt percentage),
      (''verified_owners'', JList [JStr ''carol''])]"

definition example_ised_section :: dict where
  "example_ised_section = [(''directors'', JList [JStr ''alice'', JStr ''bob''])]"

text \<open>
  An environment with a clock that advances one second per reading, and a world whose
  cache holds one entry.
\<close>

definition example_env :: "(nat \<Rightarrow> request \<Rightarrow> exn + json) \<Rightarrow> (nat \<Rightarrow> exn option) \<Rightarrow> env" where
  "example_env reply fault =
     \<lparr>clock = (\<lambda>n. int n * 1000000), net_reply = reply, db_fault = fault,
      sha256_hex = (\<lambda>results. ''0f'')\<rparr>"

definition cached_world :: "SystemCode \<Rightarrow> string \<Rightarrow> dict \<Rightarrow> int \<Rightarrow> world" where
  "cached_world system bn data stored_at =
     initial_world\<lparr>cache := [(cache_key system bn, (data, stored_at))]\<rparr>"

definition unreachable :: "nat \<Rightarrow> request \<Rightarrow> exn + json" where
  "unreachable n req = Inl (Exn ClientError ''Cannot connect to host'')"

text \<open>A run in which only the CRA answers, and the result the orchestrator returns for it.\<close>

definition cra_only :: "nat \<Rightarrow> request \<Rightarrow> exn + json" where
  "cra_only n req =
     (if req = HttpGet ''https://api.cra-arc.gc.ca/v1/business/9''
      then Inr (JDict [(''businessStatus'', JStr ''active'')])
      else Inl (Exn ClientError ''Cannot connect to host''))"

definition cra_only_result :: verification_results where
  "cra_only_result =
     \<lparr>business_number = ''9'', verification_timestamp = 0,
      systems_checked = [''cra''],
      consolidated_data =
        [(JStr ''CRA'',
          [(''business_status'', JStr ''active''),
           (''registration_date'', JNull), (''business_type'', JNull),
           (''gst_registered'', JNull), (''payroll_account'', JNull),
           (''tax_filing_status'', JNull), (''directors'', JList []),
           (''mailing_address'', JNull), (''physical_address'', JNull)])],
      red_flags =
        [''Failed to verify with ised: Cannot connect to host'',
         ''Failed to verify with isc: Cannot connect to host'',
         ''Failed to verify with pspc: Cannot connect to host''],
      verification_score = 1 / 4\<rparr>"

text \<open>The red flags of a run in which no registry can be reached.\<close>

definition example_failure_flags :: "string list" where
  "example_failure_flags =
     [''Failed to verify with cra: Cannot connect to host'',
      ''Failed to verify with ised: Cannot connect to host'',
      ''Failed to verify with isc: Cannot connect to host'',
      ''Failed to verify with pspc: Cannot connect to host'']"

text \<open>A database that fails on every call from the \<open>k\<close>-th on.\<close>

definition db_down_from :: "nat \<Rightarrow> nat \<Rightarrow> exn option" where
  "db_down_from k n = (if k \<le> n then Some (Exn DatabaseError ''connection is closed'') else None)"

text \<open>
  The CRA endpoint and record of the run above, and the result of the same run when
  the database fails on every call.
\<close>

definition cra_endpoint :: SystemEndpoint where
  "cra_endpoint = SystemEndpoint_init ''https://api.cra-arc.gc.ca/v1'' ''oauth2'' 60"

definition cra_only_record :: dict where
  "cra_only_record =
     [(''system'', JStr ''CRA''), (''business_status'', JStr ''active''),
      (''registration_date'', JNull), (''business_type'', JNull),
      (''gst_registered'', JNull), (''payroll_account'', JNull),
      (''tax_filing_status'', JNull), (''directors'', JList []),
      (''mailing_address'', JNull), (''physical_address'', JNull)]"

definition audit_down_result :: verification_results where
  "audit_down_result =
     \<lparr>business_number = ''9'', verification_timestamp = 0,
      systems_checked = [], consolidated_data = [],
      red_flags =
        [''Failed to verify with cra: connection is closed'',
         ''Failed to verify with ised: connection is closed'',
         ''Failed to verify with isc: connection is closed'',
         ''Failed to verify with pspc: connection is closed''],
      verification_score = 0\<rparr>"

section \<open>Properties\<close>

subsection \<open>The verification score\<close>

text \<open>
  Claim C3. For every input the score of \<^verbatim>\<open>_calculate_verification_score\<close> lies between
  0 and 1, and for a fixed \<^verbatim>\<open>systems_checked\<close> a result with at least as many red flags
  never has a higher score.
\<close>

theorem score_monotone_bounded:
  "(0 \<le> calculate_verification_score r \<and> calculate_verification_score r \<le> 1)
   \<and> (systems_checked r2 = systems_checked r1 \<and> length (red_flags r1) \<le> length (red_flags r2)
        \<longrightarrow> calculate_verification_score r2 \<le> calculate_verification_score r1)"
proof -
  have bounds: "0 \<le> calculate_verification_score r \<and> calculate_verification_score r \<le> 1"
    by (simp add: calculate_verification_score_def)
  have mono: "calculate_verification_score r2 \<le> calculate_verification_score r1"
    if same: "systems_checked r2 = systems_checked r1"
      and more: "length (red_flags r1) \<le> length (red_flags r2)"
  proof -
    have "(of_nat (length (red_flags r1)) :: rat) \<le> of_nat (length (red_flags r2))"
      using more by simp
    then have "base_score r2 \<le> base_score r1"
      by (simp add: base_score_def same)
    then show ?thesis
      by (simp add: calculate_verification_score_def min_def max_def)
  qed
  show ?thesis using bounds mono by blast
qed

theorem score_monotone_bounded_witness:
  "calculate_verification_score
      \<lparr>business_number = ''123456789'', verification_timestamp = 0,
       systems_checked = [''cra'', ''ised''], consolidated_data = [],
       red_flags = [''flag''], verification_score = 0\<rparr> = 13 / 20
   \<and> calculate_verification_score
      \<lparr>business_number = ''123456789'', verification_timestamp = 0,
       systems_checked = [''cra'', ''ised''], consolidated_data = [],
       red_flags = [], verification_score = 0\<rparr> = 4 / 5
   \<and> calculate_verification_score
      \<lparr>business_number = ''123456789'', verification_timestamp = 0,
       systems_checked = [''cra'', ''ised''], consolidated_data = [],
       red_flags = [''flag''], verification_score = 0\<rparr>
     \<le> calculate_verification_score
      \<lparr>business_number = ''123456789'', verification_timestamp = 0,
       systems_checked = [''cra'', ''ised''], consolidated_data = [],
       red_flags = [], verification_score = 0\<rparr>"
  using score_monotone_bounded
    [of "\<lparr>business_number = ''123456789'', verification_timestamp = 0,
          systems_checked = [''cra'', ''ised''], consolidated_data = [],
          red_flags = [], verification_score = 0\<rparr>"
        "\<lparr>business_number = ''123456789'', verification_timestamp = 0,
          systems_checked = [''cra'', ''ised''], consolidated_data = [],
          red_flags = [''flag''], verification_score = 0\<rparr>"
        "\<lparr>business_number = ''123456789'', verification_timestamp = 0,
          systems_checked = [''cra'', ''ised''], consolidated_data = [],
          red_flags = [], verification_score = 0\<rparr>"]
  by (simp add: calculate_verification_score_def base_score_def)


subsection \<open>The consistency rules\<close>

lemma status_rule_flags:
  "f \<in> set (status_rule c d) \<Longrightarrow> take 1 f = ''B''"
  by (auto simp: status_rule_def Let_def split: option.splits if_splits)

lemma address_rule_flags:
  "address_rule c d s = Inr fl \<Longrightarrow> f \<in> set fl
   \<Longrightarrow> f = ''Inconsistent addresses between CRA and ISED records''"
  by (auto simp: address_rule_def Let_def split: option.splits if_splits sum.splits)

lemma ownership_rule_flags:
  "ownership_rule c = Inr fl \<Longrightarrow> f \<in> set fl
   \<Longrightarrow> f = ''Majority Indigenous ownership but minority Indigenous directors''"
  by (auto simp: ownership_rule_def Let_def split: option.splits if_splits sum.splits bool.splits)

lemma check_data_inconsistencies_Inr:
  assumes "check_data_inconsistencies c new_data system = Inr flags"
  obtains af ofl where "address_rule c new_data system = Inr af"
    and "ownership_rule c = Inr ofl"
    and "flags = af @ status_rule c new_data @ ofl"
  using assms by (auto simp: check_data_inconsistencies_def Let_def split: sum.splits)

lemmas example_simps =
  check_data_inconsistencies_def address_rule_def status_rule_def ownership_rule_def
  dict_get_default_def dict_get_def str_upper_def upper_code_point_def code_points_def
  strip_spaces_def
  example_address_def example_isc_section_def example_ised_section_def

lemma py_upper_Inr: "py_upper v = Inr x \<longleftrightarrow> (\<exists>s. v = JStr s \<and> x = str_upper s)"
  by (cases v) auto

lemma normalize_address_form:
  "normalize_address addr = Inr n \<longleftrightarrow>
     (\<exists>d street_number street_name city province postal_code.
        addr = JDict d
      \<and> dict_get_default d ''streetNumber'' (JStr []) = JStr street_number
      \<and> dict_get_default d ''streetName'' (JStr []) = JStr street_name
      \<and> dict_get_default d ''city'' (JStr []) = JStr city
      \<and> dict_get_default d ''province'' (JStr []) = JStr province
      \<and> dict_get_default d ''postalCode'' (JStr []) = JStr postal_code
      \<and> n = code_points street_number @ [124] @ str_upper street_name @ [124]
            @ str_upper city @ [124] @ str_upper province @ [124]
            @ filter (\<lambda>c. c \<noteq> 32) (str_upper postal_code))"
proof (cases addr)
  case (JDict d)
  show ?thesis
  proof (cases "py_upper (dict_get_default d ''streetName'' (JStr []))")
    case (Inl e)
    then have "\<nexists>s. dict_get_default d ''streetName'' (JStr []) = JStr s"
      by (auto simp: py_upper_Inr)
    then show ?thesis using JDict Inl by auto
  next
    case name: (Inr name)
    then obtain s1 where s1: "dict_get_default d ''streetName'' (JStr []) = JStr s1"
      "name = str_upper s1" by (auto simp: py_upper_Inr)
    show ?thesis
    proof (cases "py_upper (dict_get_default d ''city'' (JStr []))")
      case (Inl e)
      then have "\<nexists>s. dict_get_default d ''city'' (JStr []) = JStr s"
        by (auto simp: py_upper_Inr)
      then show ?thesis using JDict name Inl by auto
    next
      case city: (Inr city)
      then obtain s2 where s2: "dict_get_default d ''city'' (JStr []) = JStr s2"
        "city = str_upper s2" by (auto simp: py_upper_Inr)
      show ?thesis
      proof (cases "py_upper (dict_get_default d ''province'' (JStr []))")
        case (Inl e)
        then have "\<nexists>s. dict_get_default d ''province'' (JStr []) = JStr s"
          by (auto simp: py_upper_Inr)
        then show ?thesis using JDict name city Inl by auto
      next
        case prov: (Inr prov)
        then obtain s3 where s3: "dict_get_default d ''province'' (JStr []) = JStr s3"
          "prov = str_upper s3" by (auto simp: py_upper_Inr)
        show ?thesis
        proof (cases "py_upper (dict_get_default d ''postalCode'' (JStr []))")
          case (Inl e)
          then have "\<nexists>s. dict_get_default d ''postalCode'' (JStr []) = JStr s"
            by (auto simp: py_upper_Inr)
          then show ?thesis using JDict name city prov Inl by auto
        next
          case post: (Inr post)
          then obtain s4 where s4: "dict_get_default d ''postalCode'' (JStr []) = JStr s4"
            "post = str_upper s4" by (auto simp: py_upper_Inr)
          show ?thesis
            using JDict name city prov post s1 s2 s3 s4
            by (cases "dict_get_default d ''streetNumber'' (JStr [])")
               (auto simp: strip_spaces_def)
        qed
      qed
    qed
  qed
qed auto


text \<open>
  Claim C7, as the code has it. While a result is processed, the address flag is raised
  exactly when that result is the ISED one, CRA is already in the consolidated record,
  both addresses are non-empty and \<open>normalize_address\<close> gives different results for
  them. \<open>normalize_address\<close> succeeds exactly on a dict whose five parts are strings
  (a missing part counts as the empty string), and its result is the street number as
  it is, then street name, city and province in upper case, then the postal code in
  upper case without its spaces, joined by bars. No other white space is removed or
  collapsed.
\<close>

theorem address_rule_fires_iff:
  assumes "check_data_inconsistencies c new_data system = Inr flags"
  shows "(''Inconsistent addresses between CRA and ISED records'' \<in> set flags
     \<longleftrightarrow> (\<exists>cra a b. map_of c (JStr ''CRA'') = Some cra \<and> system = ISED
            \<and> truthy (dict_get_default cra ''physical_address'' (JDict []))
            \<and> truthy (dict_get_default new_data ''registered_office'' (JDict []))
            \<and> normalize_address (dict_get_default cra ''physical_address'' (JDict [])) = Inr a
            \<and> normalize_address (dict_get_default new_data ''registered_office'' (JDict []))
                = Inr b
            \<and> a \<noteq> b))
   \<and> (\<forall>addr n. normalize_address addr = Inr n \<longleftrightarrow>
         (\<exists>d street_number street_name city province postal_code.
            addr = JDict d
          \<and> dict_get_default d ''streetNumber'' (JStr []) = JStr street_number
          \<and> dict_get_default d ''streetName'' (JStr []) = JStr street_name
          \<and> dict_get_default d ''city'' (JStr []) = JStr city
          \<and> dict_get_default d ''province'' (JStr []) = JStr province
          \<and> dict_get_default d ''postalCode'' (JStr []) = JStr postal_code
          \<and> n = code_points street_number @ [124] @ str_upper street_name @ [124]
                @ str_upper city @ [124] @ str_upper province @ [124]
                @ filter (\<lambda>c. c \<noteq> 32) (str_upper postal_code)))"
proof -
  obtain af ofl where a: "address_rule c new_data system = Inr af"
    and o: "ownership_rule c = Inr ofl"
    and fl: "flags = af @ status_rule c new_data @ ofl"
    using assms by (rule check_data_inconsistencies_Inr)
  let ?m = "''Inconsistent addresses between CRA and ISED records''"
  have "?m \<notin> set (status_rule c new_data)"
    using status_rule_flags[of ?m c new_data] by auto
  moreover have "?m \<notin> set ofl"
    using ownership_rule_flags[OF o, of ?m] by auto
  ultimately have "?m \<in> set flags \<longleftrightarrow> ?m \<in> set af" using fl by simp
  also have "\<dots> \<longleftrightarrow> (\<exists>cra a b. map_of c (JStr ''CRA'') = Some cra \<and> system = ISED
            \<and> truthy (dict_get_default cra ''physical_address'' (JDict []))
            \<and> truthy (dict_get_default new_data ''registered_office'' (JDict []))
            \<and> normalize_address (dict_get_default cra ''physical_address'' (JDict [])) = Inr a
            \<and> normalize_address (dict_get_default new_data ''registered_office'' (JDict []))
                = Inr b
            \<and> a \<noteq> b)"
    using a by (auto simp: address_rule_def Let_def split: option.splits if_splits sum.splits)
  finally have fires: "?m \<in> set flags
     \<longleftrightarrow> (\<exists>cra a b. map_of c (JStr ''CRA'') = Some cra \<and> system = ISED
            \<and> truthy (dict_get_default cra ''physical_address'' (JDict []))
            \<and> truthy (dict_get_default new_data ''registered_office'' (JDict []))
            \<and> normalize_address (dict_get_default cra ''physical_address'' (JDict [])) = Inr a
            \<and> normalize_address (dict_get_default new_data ''registered_office'' (JDict []))
                = Inr b
            \<and> a \<noteq> b)" .
  show ?thesis using fires normalize_address_form by blast
qed


theorem address_rule_fires_iff_witness:
  "check_data_inconsistencies
     [(JStr ''CRA'', [(''physical_address'', JDict (example_address ''Main St''))])]
     [(''system'', JStr ''ISED''), (''registered_office'', JDict (example_address ''Elm St''))]
     ISED
     = Inr [''Inconsistent addresses between CRA and ISED records'']
   \<and> normalize_address (JDict (example_address ''Main St''))
     = Inr [49, 48, 48, 124, 77, 65, 73, 78, 32, 83, 84, 124, 79, 84, 84, 65, 87, 65, 124,
            79, 78, 124, 75, 49, 65, 48, 66, 49]
   \<and> normalize_address (JDict (example_address ''Elm St''))
     = Inr [49, 48, 48, 124, 69, 76, 77, 32, 83, 84, 124, 79, 84, 84, 65, 87, 65, 124,
            79, 78, 124, 75, 49, 65, 48, 66, 49]
   \<and> check_data_inconsistencies
     [(JStr ''CRA'',
       [(''physical_address'', JDict (example_city_address (''Montr'' @ [CHR 0xE9] @ ''al'')))])]
     [(''system'', JStr ''ISED''),
      (''registered_office'', JDict (example_city_address (''MONTR'' @ [CHR 0xC9] @ ''AL'')))]
     ISED
     = Inr []"
proof -
  let ?main = "[49, 48, 48, 124, 77, 65, 73, 78, 32, 83, 84, 124, 79, 84, 84, 65, 87, 65, 124,
            79, 78, 124, 75, 49, 65, 48, 66, 49] :: nat list"
  let ?elm = "[49, 48, 48, 124, 69, 76, 77, 32, 83, 84, 124, 79, 84, 84, 65, 87, 65, 124,
            79, 78, 124, 75, 49, 65, 48, 66, 49] :: nat list"
  have h: "check_data_inconsistencies
             [(JStr ''CRA'', [(''physical_address'', JDict (example_address ''Main St''))])]
             [(''system'', JStr ''ISED''),
              (''registered_office'', JDict (example_address ''Elm St''))] ISED
           = Inr [''Inconsistent addresses between CRA and ISED records'']"
    by (simp add: example_simps)
  have g: "check_data_inconsistencies
     [(JStr ''CRA'',
       [(''physical_address'', JDict (example_city_address (''Montr'' @ [CHR 0xE9] @ ''al'')))])]
     [(''system'', JStr ''ISED''),
      (''registered_office'', JDict (example_city_address (''MONTR'' @ [CHR 0xC9] @ ''AL'')))]
     ISED
     = Inr []"
    by (simp add: example_simps example_city_address_def)
  note form = address_rule_fires_iff [OF h, THEN conjunct2, rule_format]
  have m: "normalize_address (JDict (example_address ''Main St'')) = Inr ?main"
    apply (rule form [THEN iffD2])
    apply (rule exI [where x = "example_address ''Main St''"])
    apply (rule exI [where x = "''100''"])
    apply (rule exI [where x = "''Main St''"])
    apply (rule exI [where x = "''Ottawa''"])
    apply (rule exI [where x = "''ON''"])
    apply (rule exI [where x = "''K1A 0B1''"])
    apply (simp add: example_address_def dict_get_default_def code_points_def str_upper_def
        upper_code_point_def)
    done
  have e: "normalize_address (JDict (example_address ''Elm St'')) = Inr ?elm"
    apply (rule form [THEN iffD2])
    apply (rule exI [where x = "example_address ''Elm St''"])
    apply (rule exI [where x = "''100''"])
    apply (rule exI [where x = "''Elm St''"])
    apply (rule exI [where x = "''Ottawa''"])
    apply (rule exI [where x = "''ON''"])
    apply (rule exI [where x = "''K1A 0B1''"])
    apply (simp add: example_address_def dict_get_default_def code_points_def str_upper_def
        upper_code_point_def)
    done
  show ?thesis using h m e g by (intro conjI)
qed

text \<open>
  Claim C7 as stated fails: two addresses that differ only by a doubled space have the
  same normal form in the sense of the specification, and the rule fires on them.
\<close>

theorem address_rule_whitespace_counterexample:
  "spec_normalize_address (example_address ''Main  St'')
     = spec_normalize_address (example_address ''Main St'')
   \<and> check_data_inconsistencies
       [(JStr ''CRA'', [(''physical_address'', JDict (example_address ''Main  St''))])]
       [(''system'', JStr ''ISED''), (''registered_office'', JDict (example_address ''Main St''))]
       ISED
     = Inr [''Inconsistent addresses between CRA and ISED records'']"
  by (simp add: example_simps spec_normalize_address_def spec_field_def)



lemma py_set_distinct: "py_set v = Inr xs \<Longrightarrow> distinct xs"
  by (cases v) (auto split: option.splits)

lemma overlap_card: "distinct xs \<Longrightarrow> length (filter (\<lambda>x. x \<in> set ys) xs) = card (set xs \<inter> set ys)"
proof -
  assume d: "distinct xs"
  have "set (filter (\<lambda>x. x \<in> set ys) xs) = set xs \<inter> set ys" by auto
  moreover have "distinct (filter (\<lambda>x. x \<in> set ys) xs)" using d by simp
  ultimately show ?thesis using distinct_card by metis
qed


lemma ownership_rule_iff:
  assumes o: "ownership_rule c = Inr ofl"
  shows "''Majority Indigenous ownership but minority Indigenous directors'' \<in> set ofl
     \<longleftrightarrow> (\<exists>isc ised owners directors.
            map_of c (JStr ''ISC'') = Some isc \<and> map_of c (JStr ''ISED'') = Some ised
            \<and> py_ge_int (dict_get_default isc ''indigenous_ownership_percentage'' (JInt 0)) 51 = Inr True
            \<and> py_set (dict_get_default isc ''verified_owners'' (JList [])) = Inr owners
            \<and> py_set (dict_get_default ised ''directors'' (JList [])) = Inr directors
            \<and> owners \<noteq> [] \<and> directors \<noteq> []
            \<and> (of_nat (length (filter (\<lambda>x. x \<in> set directors) owners)) :: rat)
                 < of_nat (length directors) / 2)"
proof (cases "map_of c (JStr ''ISC'')")
  case None
  then show ?thesis using o by (simp add: ownership_rule_def)
next
  case isc: (Some isc)
  show ?thesis
  proof (cases "map_of c (JStr ''ISED'')")
    case None
    then show ?thesis using o isc by (simp add: ownership_rule_def)
  next
    case ised: (Some ised)
    show ?thesis
    proof (cases "py_ge_int (dict_get_default isc ''indigenous_ownership_percentage'' (JInt 0)) 51")
      case (Inl e)
      then show ?thesis using o isc ised by (simp add: ownership_rule_def)
    next
      case ge: (Inr b)
      show ?thesis
      proof (cases b)
        case False
        then show ?thesis using o isc ised ge by (simp add: ownership_rule_def)
      next
        case True
        show ?thesis
        proof (cases "py_set (dict_get_default isc ''verified_owners'' (JList []))")
          case (Inl e)
          then show ?thesis using o isc ised ge True by (simp add: ownership_rule_def)
        next
          case ow: (Inr owners)
          show ?thesis
          proof (cases "py_set (dict_get_default ised ''directors'' (JList []))")
            case (Inl e)
            then show ?thesis using o isc ised ge True ow by (simp add: ownership_rule_def)
          next
            case di: (Inr directors)
            have "ofl = (if owners \<noteq> [] \<and> directors \<noteq> [] then
                    (if (of_nat (length (filter (\<lambda>x. x \<in> set directors) owners)) :: rat)
                          < of_nat (length directors) / 2
                     then [''Majority Indigenous ownership but minority Indigenous directors'']
                     else [])
                  else [])"
              using o isc ised ge True ow di
              by (auto simp: ownership_rule_def Let_def split: if_splits)
            then show ?thesis using isc ised ge True ow di by simp
          qed
        qed
      qed
    qed
  qed
qed


lemma overlap_half:
  assumes "distinct owners" "distinct directors"
  shows "((of_nat (length (filter (\<lambda>x. x \<in> set directors) owners)) :: rat)
            < of_nat (length directors) / 2)
         = (2 * card (set owners \<inter> set directors) < card (set directors))"
proof -
  have 1: "length (filter (\<lambda>x. x \<in> set directors) owners) = card (set owners \<inter> set directors)"
    using overlap_card assms(1) by blast
  have 2: "length directors = card (set directors)"
    using assms(2) by (simp add: distinct_card)
  have "((of_nat (card (set owners \<inter> set directors)) :: rat) < of_nat (card (set directors)) / 2)
     = ((of_nat (2 * card (set owners \<inter> set directors)) :: rat) < of_nat (card (set directors)))"
    by (simp add: field_simps)
  also have "\<dots> = (2 * card (set owners \<inter> set directors) < card (set directors))"
    by (simp only: of_nat_less_iff)
  finally show ?thesis using 1 2 by simp
qed

text \<open>
  Claim C8, as the code has it. The ownership flag is raised exactly when ISC and ISED
  are both in the consolidated record, the ISC ownership percentage is at least 51, the
  sets of verified owners and of directors are both non-empty, and fewer than half of
  the directors are verified owners.
\<close>

theorem ownership_rule_fires_iff:
  assumes "check_data_inconsistencies c new_data system = Inr flags"
  shows "''Majority Indigenous ownership but minority Indigenous directors'' \<in> set flags
     \<longleftrightarrow> (\<exists>isc ised owners directors.
            map_of c (JStr ''ISC'') = Some isc \<and> map_of c (JStr ''ISED'') = Some ised
            \<and> py_ge_int (dict_get_default isc ''indigenous_ownership_percentage'' (JInt 0)) 51 = Inr True
            \<and> py_set (dict_get_default isc ''verified_owners'' (JList [])) = Inr owners
            \<and> py_set (dict_get_default ised ''directors'' (JList [])) = Inr directors
            \<and> owners \<noteq> [] \<and> directors \<noteq> []
            \<and> 2 * card (set owners \<inter> set directors) < card (set directors))"
    (is "?lhs \<longleftrightarrow> ?rhs")
proof -
  obtain af ofl where a: "address_rule c new_data system = Inr af"
    and o: "ownership_rule c = Inr ofl"
    and fl: "flags = af @ status_rule c new_data @ ofl"
    using assms by (rule check_data_inconsistencies_Inr)
  let ?m = "''Majority Indigenous ownership but minority Indigenous directors''"
  have "?m \<notin> set (status_rule c new_data)"
    using status_rule_flags[of ?m c new_data] by auto
  moreover have "?m \<notin> set af"
    using address_rule_flags[OF a, of ?m] by auto
  ultimately have mem: "?lhs \<longleftrightarrow> ?m \<in> set ofl" using fl by simp
  show ?thesis
  proof
    assume ?lhs
    then have "?m \<in> set ofl" using mem by simp
    then obtain isc ised owners directors where
      h: "map_of c (JStr ''ISC'') = Some isc" "map_of c (JStr ''ISED'') = Some ised"
         "py_ge_int (dict_get_default isc ''indigenous_ownership_percentage'' (JInt 0)) 51 = Inr True"
         "py_set (dict_get_default isc ''verified_owners'' (JList [])) = Inr owners"
         "py_set (dict_get_default ised ''directors'' (JList [])) = Inr directors"
         "owners \<noteq> []" "directors \<noteq> []"
         "(of_nat (length (filter (\<lambda>x. x \<in> set directors) owners)) :: rat)
                 < of_nat (length directors) / 2"
      using ownership_rule_iff[OF o] by blast
    have "2 * card (set owners \<inter> set directors) < card (set directors)"
      using overlap_half[OF py_set_distinct[OF h(4)] py_set_distinct[OF h(5)]] h(8) by simp
    then show ?rhs using h by blast
  next
    assume ?rhs
    then obtain isc ised owners directors where
      h: "map_of c (JStr ''ISC'') = Some isc" "map_of c (JStr ''ISED'') = Some ised"
         "py_ge_int (dict_get_default isc ''indigenous_ownership_percentage'' (JInt 0)) 51 = Inr True"
         "py_set (dict_get_default isc ''verified_owners'' (JList [])) = Inr owners"
         "py_set (dict_get_default ised ''directors'' (JList [])) = Inr directors"
         "owners \<noteq> []" "directors \<noteq> []"
         "2 * card (set owners \<inter> set directors) < card (set directors)"
      by blast
    have "(of_nat (length (filter (\<lambda>x. x \<in> set directors) owners)) :: rat)
                 < of_nat (length directors) / 2"
      using overlap_half[OF py_set_distinct[OF h(4)] py_set_distinct[OF h(5)]] h(8) by simp
    then have "?m \<in> set ofl" using ownership_rule_iff[OF o] h by blast
    then show ?lhs using mem by simp
  qed
qed

theorem ownership_rule_fires_iff_witness:
  "''Majority Indigenous ownership but minority Indigenous directors''
     \<in> set [''Majority Indigenous ownership but minority Indigenous directors'']
   \<longleftrightarrow> (\<exists>isc ised owners directors.
          map_of [(JStr ''ISED'', example_ised_section), (JStr ''ISC'', example_isc_section 51)]
            (JStr ''ISC'') = Some isc
        \<and> map_of [(JStr ''ISED'', example_ised_section), (JStr ''ISC'', example_isc_section 51)]
            (JStr ''ISED'') = Some ised
        \<and> py_ge_int (dict_get_default isc ''indigenous_ownership_percentage'' (JInt 0)) 51
            = Inr True
        \<and> py_set (dict_get_default isc ''verified_owners'' (JList [])) = Inr owners
        \<and> py_set (dict_get_default ised ''directors'' (JList [])) = Inr directors
        \<and> owners \<noteq> [] \<and> directors \<noteq> []
        \<and> 2 * card (set owners \<inter> set directors) < card (set directors))"
proof -
  have h: "check_data_inconsistencies
             [(JStr ''ISED'', example_ised_section), (JStr ''ISC'', example_isc_section 51)]
             ((''system'', JStr ''ISC'') # example_isc_section 51) ISC
           = Inr [''Majority Indigenous ownership but minority Indigenous directors'']"
    by (simp add: example_simps)
  show ?thesis by (rule ownership_rule_fires_iff [OF h])
qed

text \<open>
  Claim C8 as stated fails at 50 percent: ISC reports 50, ISED lists two directors,
  neither of them a verified owner, and no flag is raised.
\<close>

theorem ownership_rule_fifty_counterexample:
  "py_ge_int (dict_get_default (example_isc_section 50) ''indigenous_ownership_percentage''
      (JInt 0)) 50 = Inr True
   \<and> py_set (dict_get_default (example_isc_section 50) ''verified_owners'' (JList []))
       = Inr [JStr ''carol'']
   \<and> py_set (dict_get_default example_ised_section ''directors'' (JList []))
       = Inr [JStr ''alice'', JStr ''bob'']
   \<and> check_data_inconsistencies
       [(JStr ''ISED'', example_ised_section), (JStr ''ISC'', example_isc_section 50)]
       ((''system'', JStr ''ISC'') # example_isc_section 50) ISC
     = Inr []"
  by (simp add: example_simps)


subsection \<open>The result cache\<close>

text \<open>
  What each step does to the state. The outcome of an adapter call depends on the state
  only through the number of requests sent so far.
\<close>

lemma fetch_effect:
  "fetch E req build w = (r, w') \<Longrightarrow> w' = w\<lparr>net_log := net_log w @ [req]\<rparr>"
  by (auto simp: fetch_def session_request_def split: sum.splits)

lemma fetch_clock_irrelevant:
  "fst (fetch E req build (w\<lparr>clock_reads := n\<rparr>)) = fst (fetch E req build w)"
  by (auto simp: fetch_def session_request_def split: sum.splits)

lemma configured_systems:
  "endpoints s = Some ep \<Longrightarrow> s \<in> {CRA, ISED, ISC, PSPC, ON_ONBIS, QC_REQ}"
  by (cases s) auto

lemma fetch_snd:
  "snd (fetch E req build w) = w\<lparr>net_log := net_log w @ [req]\<rparr>"
  by (cases "fetch E req build w") (simp add: fetch_effect)

lemma call_adapter_snd:
  assumes "endpoints s = Some ep"
  shows "\<exists>req. snd (call_adapter E bn s ep w) = w\<lparr>net_log := net_log w @ [req]\<rparr>"
  using configured_systems[OF assms]
  by (auto simp: call_adapter_def verify_cra_def verify_ised_def verify_isc_def verify_pspc_def
      verify_provincial_def Let_def fetch_snd)

lemma call_adapter_effect:
  assumes "endpoints s = Some ep" "call_adapter E bn s ep w = (r, w')"
  shows "\<exists>req. w' = w\<lparr>net_log := net_log w @ [req]\<rparr>"
  using call_adapter_snd[OF assms(1), of E bn w] assms(2) by simp

lemma call_adapter_clock_irrelevant:
  "fst (call_adapter E bn s ep (w\<lparr>clock_reads := n\<rparr>)) = fst (call_adapter E bn s ep w)"
  by (simp add: call_adapter_def verify_cra_def verify_ised_def verify_isc_def verify_pspc_def
      verify_provincial_def Let_def fetch_clock_irrelevant)

lemma db_execute_effect:
  "db_execute E stmt w = (r, w') \<Longrightarrow>
     cache w' = cache w \<and> net_log w' = net_log w \<and> clock_reads w' = clock_reads w"
  by (auto simp: db_execute_def split: option.splits)

lemma log_integration_effect:
  "log_integration E s bn ok err w = (r, w') \<Longrightarrow>
     cache w' = cache w \<and> net_log w' = net_log w \<and> clock_reads w' = Suc (Suc (clock_reads w))"
  by (auto simp: log_integration_def utcnow_def Let_def dest!: db_execute_effect)

lemma on_exception_effect:
  "on_exception E bn s e w = (r, w') \<Longrightarrow>
     isl r \<and> cache w' = cache w \<and> net_log w' = net_log w"
  by (auto simp: on_exception_def split: prod.splits sum.splits dest!: log_integration_effect)


lemma call_api_failure:
  assumes ep: "endpoints s = Some ep"
    and fail: "fst (call_adapter E bn s ep w) = Inl e"
    and run: "call_api E bn s w = (r, w')"
  shows "isl r \<and> cache w' = cache w \<and> length (net_log w') = Suc (length (net_log w))"
proof -
  obtain w1 where ca: "call_adapter E bn s ep w = (Inl e, w1)"
    using fail by (cases "call_adapter E bn s ep w") simp
  obtain req where w1: "w1 = w\<lparr>net_log := net_log w @ [req]\<rparr>"
    using call_adapter_effect[OF ep ca] by blast
  have "on_exception E bn s e w1 = (r, w')"
    using run ep ca by (simp add: call_api_def)
  from on_exception_effect[OF this] show ?thesis using w1 by simp
qed

lemma call_api_success:
  assumes ep: "endpoints s = Some ep"
    and ok: "fst (call_adapter E bn s ep w) = Inr data"
    and run: "call_api E bn s w = (r, w')"
  shows "(r = Inr data \<or> isl r)
       \<and> cache w' = AList.update (cache_key s bn) (data, clock E (clock_reads w)) (cache w)
       \<and> length (net_log w') = Suc (length (net_log w))"
proof -
  obtain w1 where ca: "call_adapter E bn s ep w = (Inr data, w1)"
    using ok by (cases "call_adapter E bn s ep w") simp
  obtain req where w1: "w1 = w\<lparr>net_log := net_log w @ [req]\<rparr>"
    using call_adapter_effect[OF ep ca] by blast
  define w3 where "w3 = (snd (utcnow E w1))\<lparr>cache :=
      AList.update (cache_key s bn) (data, fst (utcnow E w1)) (cache (snd (utcnow E w1)))\<rparr>"
  have w3: "cache w3 = AList.update (cache_key s bn) (data, clock E (clock_reads w)) (cache w)"
    "net_log w3 = net_log w @ [req]"
    by (simp_all add: w3_def utcnow_def w1)
  obtain lr w4 where lg: "log_integration E s bn True None w3 = (lr, w4)"
    by (cases "log_integration E s bn True None w3")
  have w4: "cache w4 = cache w3" "net_log w4 = net_log w3"
    using log_integration_effect[OF lg] by simp_all
  show ?thesis
  proof (cases lr)
    case (Inl e)
    then have "on_exception E bn s e w4 = (r, w')"
      using run ep ca lg by (simp add: call_api_def w3_def Let_def split: prod.splits)
    from on_exception_effect[OF this] show ?thesis using w3 w4 by simp
  next
    case (Inr u)
    then have "r = Inr data \<and> w' = w4"
      using run ep ca lg by (simp add: call_api_def w3_def Let_def split: prod.splits)
    then show ?thesis using w3 w4 by simp
  qed
qed

lemma call_api_result:
  assumes ep: "endpoints s = Some ep"
    and run: "call_api E bn s w = (Inr data, w')"
  shows "fst (call_adapter E bn s ep w) = Inr data"
proof (cases "fst (call_adapter E bn s ep w)")
  case (Inl e)
  from call_api_failure[OF ep this run] show ?thesis by simp
next
  case (Inr d)
  from call_api_success[OF ep this run] show ?thesis using Inr by simp
qed

lemma call_api_one_request:
  assumes ep: "endpoints s = Some ep" and run: "call_api E bn s w = (r, w')"
  shows "length (net_log w') = Suc (length (net_log w))"
proof (cases "fst (call_adapter E bn s ep w)")
  case (Inl e)
  from call_api_failure[OF ep this run] show ?thesis by simp
next
  case (Inr d)
  from call_api_success[OF ep this run] show ?thesis by simp
qed


lemma example_clock_mono: "mono (clock (example_env reply fault))"
  by (simp add: example_env_def mono_def)


text \<open>
  Claim C4. Let the cache hold an entry for the key of a configured system. If less than
  the TTL has passed since the entry was stored, \<^verbatim>\<open>_verify_with_system\<close> returns the
  cached data and sends no request. Otherwise it sends exactly one request, a returned
  value is the one the adapter has just built, and whenever the adapter succeeds the
  entry is overwritten with the new data and the time read after the request.
\<close>

theorem cache_ttl_respected:
  assumes ep: "endpoints system = Some endpoint"
    and hit: "map_of (cache w) (cache_key system bn) = Some (cached_data, cached_time)"
    and run: "verify_with_system E bn system w = (r, w')"
  shows "(clock E (clock_reads w) - cached_time < timedelta_seconds (cache_ttl endpoint)
            \<longrightarrow> r = Inr cached_data \<and> net_log w' = net_log w \<and> cache w' = cache w)
       \<and> (\<not> clock E (clock_reads w) - cached_time < timedelta_seconds (cache_ttl endpoint)
            \<longrightarrow> length (net_log w') = Suc (length (net_log w))
              \<and> (\<forall>data. r = Inr data \<longrightarrow> fst (call_adapter E bn system endpoint w) = Inr data)
              \<and> (\<forall>data. fst (call_adapter E bn system endpoint w) = Inr data
                    \<longrightarrow> map_of (cache w') (cache_key system bn)
                          = Some (data, clock E (Suc (clock_reads w)))))"
proof (cases "clock E (clock_reads w) - cached_time < timedelta_seconds (cache_ttl endpoint)")
  case True
  then show ?thesis
    using ep hit run by (auto simp: verify_with_system_def utcnow_def)
next
  case False
  let ?w1 = "w\<lparr>clock_reads := Suc (clock_reads w)\<rparr>"
  have api: "call_api E bn system ?w1 = (r, w')"
    using ep hit run False by (simp add: verify_with_system_def utcnow_def)
  have same: "fst (call_adapter E bn system endpoint ?w1) = fst (call_adapter E bn system endpoint w)"
    by (rule call_adapter_clock_irrelevant)
  have one: "length (net_log w') = Suc (length (net_log w))"
    using call_api_one_request[OF ep api] by simp
  have fresh: "fst (call_adapter E bn system endpoint w) = Inr data" if "r = Inr data" for data
    using call_api_result[OF ep, of E bn ?w1 data w'] api that same by simp
  have stored: "map_of (cache w') (cache_key system bn) = Some (data, clock E (Suc (clock_reads w)))"
    if "fst (call_adapter E bn system endpoint w) = Inr data" for data
  proof -
    have "fst (call_adapter E bn system endpoint ?w1) = Inr data" using that same by simp
    from call_api_success[OF ep this api] show ?thesis by (simp add: update_conv')
  qed
  show ?thesis using False one fresh stored by blast
qed

theorem cache_ttl_respected_witness:
  "fst (verify_with_system (example_env unreachable (\<lambda>n. None)) ''9'' CRA
          (cached_world CRA ''9'' [(''system'', JStr ''CRA'')] 0))
     = Inr [(''system'', JStr ''CRA'')]
   \<and> net_log (snd (verify_with_system (example_env unreachable (\<lambda>n. None)) ''9'' CRA
          (cached_world CRA ''9'' [(''system'', JStr ''CRA'')] 0))) = []
   \<and> length (net_log (snd (verify_with_system (example_env unreachable (\<lambda>n. None)) ''9'' CRA
          (cached_world CRA ''9'' [(''system'', JStr ''CRA'')] (- 3600000000))))) = 1"
proof -
  let ?E = "example_env unreachable (\<lambda>n. None)"
  let ?d = "[(''system'', JStr ''CRA'')]"
  let ?ep = "SystemEndpoint_init ''https://api.cra-arc.gc.ca/v1'' ''oauth2'' 60"
  have ep: "endpoints CRA = Some ?ep" by simp
  have hit: "map_of (cache (cached_world CRA ''9'' ?d t)) (cache_key CRA ''9'') = Some (?d, t)" for t
    by (simp add: cached_world_def initial_world_def)
  have run: "verify_with_system ?E ''9'' CRA (cached_world CRA ''9'' ?d t)
     = (fst (verify_with_system ?E ''9'' CRA (cached_world CRA ''9'' ?d t)),
        snd (verify_with_system ?E ''9'' CRA (cached_world CRA ''9'' ?d t)))" for t
    by simp
  have fresh: "clock ?E (clock_reads (cached_world CRA ''9'' ?d 0)) - 0
                 < timedelta_seconds (cache_ttl ?ep)"
    by (simp add: example_env_def cached_world_def initial_world_def timedelta_seconds_def
        SystemEndpoint_init_def)
  have stale: "\<not> clock ?E (clock_reads (cached_world CRA ''9'' ?d (- 3600000000))) - (- 3600000000)
                 < timedelta_seconds (cache_ttl ?ep)"
    by (simp add: example_env_def cached_world_def initial_world_def timedelta_seconds_def
        SystemEndpoint_init_def)
  have a: "fst (verify_with_system ?E ''9'' CRA (cached_world CRA ''9'' ?d 0)) = Inr ?d
        \<and> net_log (snd (verify_with_system ?E ''9'' CRA (cached_world CRA ''9'' ?d 0)))
            = net_log (cached_world CRA ''9'' ?d 0)"
    using cache_ttl_respected [OF ep hit run, of 0] fresh by blast
  have b: "length (net_log (snd (verify_with_system ?E ''9'' CRA
               (cached_world CRA ''9'' ?d (- 3600000000)))))
            = Suc (length (net_log (cached_world CRA ''9'' ?d (- 3600000000))))"
    using cache_ttl_respected [OF ep hit run, of "- 3600000000"] stale by blast
  have c: "net_log (cached_world CRA ''9'' ?d t) = []" for t
    by (simp add: cached_world_def initial_world_def)
  show ?thesis using a b by (simp only: c list.size One_nat_def simp_thms)
qed


text \<open>
  Claim C5. If the adapter call of \<^verbatim>\<open>_verify_with_system\<close> raises, the cache is left
  as it was. If moreover the call went to the network and the clock never runs backwards,
  the call raises, and every later call that finds the same entry for that key sends a
  request again.
\<close>

theorem failures_never_cached:
  assumes ep: "endpoints system = Some endpoint"
    and fail: "fst (call_adapter E bn system endpoint w) = Inl e"
    and run: "verify_with_system E bn system w = (r, w')"
  shows "cache w' = cache w
       \<and> (net_log w' \<noteq> net_log w \<and> mono (clock E) \<longrightarrow>
            isl r
          \<and> (\<forall>w2. map_of (cache w2) (cache_key system bn) = map_of (cache w) (cache_key system bn)
                  \<and> clock_reads w \<le> clock_reads w2
                \<longrightarrow> length (net_log (snd (verify_with_system E bn system w2)))
                      = Suc (length (net_log w2))))"
proof -
  let ?w1 = "w\<lparr>clock_reads := Suc (clock_reads w)\<rparr>"
  let ?key = "cache_key system bn"
  have fail1: "fst (call_adapter E bn system endpoint ?w1) = Inl e"
    using fail call_adapter_clock_irrelevant[where w=w and E=E and bn=bn and s=system and ep=endpoint] by simp
  have unchanged: "cache w' = cache w"
  proof (cases "map_of (cache w) ?key")
    case None
    then have "call_api E bn system w = (r, w')"
      using run by (simp add: verify_with_system_def)
    from call_api_failure[OF ep fail this] show ?thesis by simp
  next
    case (Some entry)
    obtain d t where entry: "entry = (d, t)" by (cases entry)
    show ?thesis
    proof (cases "clock E (clock_reads w) - t < timedelta_seconds (cache_ttl endpoint)")
      case True
      then show ?thesis
        using run ep Some entry by (auto simp: verify_with_system_def utcnow_def)
    next
      case False
      then have "call_api E bn system ?w1 = (r, w')"
        using run ep Some entry by (simp add: verify_with_system_def utcnow_def)
      from call_api_failure[OF ep fail1 this] show ?thesis by simp
    qed
  qed
  have retry: "isl r \<and> length (net_log (snd (verify_with_system E bn system w2))) = Suc (length (net_log w2))"
    if went: "net_log w' \<noteq> net_log w" and mc: "mono (clock E)"
      and same: "map_of (cache w2) ?key = map_of (cache w) ?key"
      and later: "clock_reads w \<le> clock_reads w2" for w2
  proof (cases "map_of (cache w) ?key")
    case None
    then have api: "call_api E bn system w = (r, w')"
      using run by (simp add: verify_with_system_def)
    have "verify_with_system E bn system w2 = call_api E bn system w2"
      using None same by (simp add: verify_with_system_def)
    then show ?thesis
      using call_api_one_request[OF ep, of E bn w2] call_api_failure[OF ep fail api]
      by (cases "call_api E bn system w2") simp
  next
    case (Some entry)
    obtain d t where entry: "entry = (d, t)" by (cases entry)
    have expired: "\<not> clock E (clock_reads w) - t < timedelta_seconds (cache_ttl endpoint)"
    proof
      assume "clock E (clock_reads w) - t < timedelta_seconds (cache_ttl endpoint)"
      then have "net_log w' = net_log w"
        using run ep Some entry by (auto simp: verify_with_system_def utcnow_def)
      then show False using went by simp
    qed
    then have api: "call_api E bn system ?w1 = (r, w')"
      using run ep Some entry by (simp add: verify_with_system_def utcnow_def)
    have "clock E (clock_reads w) \<le> clock E (clock_reads w2)"
      using mc later by (simp add: monoD)
    then have expired2: "\<not> clock E (clock_reads w2) - t < timedelta_seconds (cache_ttl endpoint)"
      using expired by linarith
    let ?w21 = "w2\<lparr>clock_reads := Suc (clock_reads w2)\<rparr>"
    have "verify_with_system E bn system w2 = call_api E bn system ?w21"
      using Some entry same ep expired2 by (simp add: verify_with_system_def utcnow_def)
    then show ?thesis
      using call_api_one_request[OF ep, of E bn ?w21] call_api_failure[OF ep fail1 api]
      by (cases "call_api E bn system ?w21") simp
  qed
  show ?thesis using unchanged retry by blast
qed


theorem failures_never_cached_witness:
  "cache (snd (verify_with_system (example_env unreachable (\<lambda>n. None)) ''9'' CRA initial_world)) = []
   \<and> isl (fst (verify_with_system (example_env unreachable (\<lambda>n. None)) ''9'' CRA initial_world))
   \<and> length (net_log (snd (verify_with_system (example_env unreachable (\<lambda>n. None)) ''9'' CRA
        (snd (verify_with_system (example_env unreachable (\<lambda>n. None)) ''9'' CRA initial_world)))))
      = 2"
proof -
  let ?E = "example_env unreachable (\<lambda>n. None)"
  let ?ep = "SystemEndpoint_init ''https://api.cra-arc.gc.ca/v1'' ''oauth2'' 60"
  let ?w' = "snd (verify_with_system ?E ''9'' CRA initial_world)"
  have ep: "endpoints CRA = Some ?ep" by simp
  have fail: "fst (call_adapter ?E ''9'' CRA ?ep initial_world)
                = Inl (Exn ClientError ''Cannot connect to host'')"
    by (simp add: call_adapter_def verify_cra_def fetch_def session_request_def example_env_def
        unreachable_def)
  have run: "verify_with_system ?E ''9'' CRA initial_world
               = (fst (verify_with_system ?E ''9'' CRA initial_world), ?w')"
    by simp
  have api: "verify_with_system ?E ''9'' CRA initial_world = call_api ?E ''9'' CRA initial_world"
    by (simp add: verify_with_system_def initial_world_def)
  have len: "length (net_log ?w') = 1"
    using call_api_one_request [OF ep, of ?E "''9''" initial_world] api
    by (cases "call_api ?E ''9'' CRA initial_world") (simp add: initial_world_def)
  then have went: "net_log ?w' \<noteq> net_log initial_world"
    by (auto simp: initial_world_def)
  have reads: "clock_reads initial_world \<le> clock_reads ?w'"
    by (simp add: initial_world_def)
  note main = failures_never_cached [OF ep fail run]
  have c: "cache ?w' = cache initial_world" using main by blast
  have same: "map_of (cache ?w') (cache_key CRA ''9'') = map_of (cache initial_world) (cache_key CRA ''9'')"
    using c by simp
  have step: "net_log ?w' \<noteq> net_log initial_world \<and> mono (clock ?E) \<longrightarrow>
            isl (fst (verify_with_system ?E ''9'' CRA initial_world))
          \<and> (\<forall>w2. map_of (cache w2) (cache_key CRA ''9'') = map_of (cache initial_world) (cache_key CRA ''9'')
                  \<and> clock_reads initial_world \<le> clock_reads w2
                \<longrightarrow> length (net_log (snd (verify_with_system ?E ''9'' CRA w2)))
                      = Suc (length (net_log w2)))"
    using main by (rule conjunct2)
  have d: "isl (fst (verify_with_system ?E ''9'' CRA initial_world))"
    using step went example_clock_mono [of unreachable "\<lambda>n. None"] by blast
  have e: "length (net_log (snd (verify_with_system ?E ''9'' CRA ?w'))) = Suc (length (net_log ?w'))"
    using step went example_clock_mono [of unreachable "\<lambda>n. None"] same reads by blast
  have c0: "cache ?w' = []" using c by (simp add: initial_world_def)
  show ?thesis using c0 d e len by simp
qed



subsection \<open>Records, cache entries and outcomes carry the right system name\<close>

lemma key_system_name_cache_key:
  "key_system_name (cache_key s bn) = member_name s"
  by (cases s) (simp_all add: key_system_name_def cache_key_def ascii_upper_def)

lemma member_name_inj: "member_name s = member_name s' \<Longrightarrow> s = s'"
  by (cases s; cases s'; simp)

lemma system_value_inj: "system_value s = system_value s' \<Longrightarrow> s = s'"
  by (cases s; cases s'; simp)

lemma record_system:
  "cra_record data = Inr d \<Longrightarrow> dict_get d ''system'' = JStr ''CRA''"
  "ised_record data = Inr d \<Longrightarrow> dict_get d ''system'' = JStr ''ISED''"
  "isc_record data = Inr d \<Longrightarrow> dict_get d ''system'' = JStr ''ISC''"
  "on_onbis_record data = Inr d \<Longrightarrow> dict_get d ''system'' = JStr ''ON_ONBIS''"
  by (auto simp: cra_record_def ised_record_def isc_record_def on_onbis_record_def dict_get_def
      split: json.splits)

lemma pspc_record_system:
  "pspc_record data = Inr d \<Longrightarrow> dict_get d ''system'' = JStr ''PSPC''"
  by (auto simp: pspc_record_def dict_get_def Let_def split: json.splits sum.splits)

lemma qc_req_record_system:
  "qc_req_record data = Inr d \<Longrightarrow> dict_get d ''system'' = JStr ''QC_REQ''"
  by (auto simp: qc_req_record_def dict_get_def split: json.splits sum.splits)

lemma fetch_system:
  assumes "\<And>data d. build data = Inr d \<Longrightarrow> dict_get d ''system'' = JStr nm"
    and "fst (fetch E req build w) = Inr d"
  shows "dict_get d ''system'' = JStr nm"
  using assms by (auto simp: fetch_def session_request_def split: sum.splits)

lemma call_adapter_system:
  assumes "fst (call_adapter E bn s ep w) = Inr d"
  shows "dict_get d ''system'' = JStr (member_name s)"
proof -
  consider "s = CRA" | "s = ISED" | "s = ISC" | "s = PSPC" | "s = ON_ONBIS" | "s = QC_REQ"
    | "s \<notin> {CRA, ISED, ISC, PSPC, ON_ONBIS, QC_REQ}" by blast
  then show ?thesis
  proof cases
    case 1 then show ?thesis using assms
      by (simp add: call_adapter_def verify_cra_def) (erule fetch_system[rotated], rule record_system)
  next
    case 2 then show ?thesis using assms
      by (simp add: call_adapter_def verify_ised_def) (erule fetch_system[rotated], rule record_system)
  next
    case 3 then show ?thesis using assms
      by (simp add: call_adapter_def verify_isc_def) (erule fetch_system[rotated], rule record_system)
  next
    case 4 then show ?thesis using assms
      by (simp add: call_adapter_def verify_pspc_def) (erule fetch_system[rotated], rule pspc_record_system)
  next
    case 5 then show ?thesis using assms
      by (simp add: call_adapter_def verify_provincial_def) (erule fetch_system[rotated], rule record_system)
  next
    case 6 then show ?thesis using assms
      by (simp add: call_adapter_def verify_provincial_def) (erule fetch_system[rotated], rule qc_req_record_system)
  next
    case 7 then show ?thesis using assms by (simp add: call_adapter_def)
  qed
qed


lemma cache_wf_lookup:
  assumes "cache_wf w" "map_of (cache w) (cache_key s bn) = Some (d, t)"
  shows "dict_get d ''system'' = JStr (member_name s)"
proof -
  have "(cache_key s bn, d, t) \<in> set (cache w)" using assms(2) by (rule map_of_SomeD)
  then show ?thesis
    using assms(1) by (auto simp: cache_wf_def list_all_iff key_system_name_cache_key)
qed

lemma set_update_subset: "set (AList.update k v al) \<subseteq> insert (k, v) (set al)"
  by (induction al) auto

lemma cache_wf_update:
  assumes "cache_wf w" "dict_get d ''system'' = JStr (member_name s)"
    and "cache w' = AList.update (cache_key s bn) (d, t) (cache w)"
  shows "cache_wf w'"
  using assms set_update_subset[of "cache_key s bn" "(d, t)" "cache w"]
  by (auto simp: cache_wf_def list_all_iff key_system_name_cache_key)

lemma cache_wf_cong: "cache w' = cache w \<Longrightarrow> cache_wf w' = cache_wf w"
  by (simp add: cache_wf_def)

lemma call_api_wf:
  assumes wf: "cache_wf w" and run: "call_api E bn s w = (r, w')"
  shows "cache_wf w' \<and> (\<forall>d. r = Inr d \<longrightarrow> dict_get d ''system'' = JStr (member_name s))"
proof (cases "endpoints s")
  case None
  then show ?thesis using wf run by (auto simp: call_api_def)
next
  case (Some ep)
  show ?thesis
  proof (cases "fst (call_adapter E bn s ep w)")
    case (Inl e)
    from call_api_failure[OF Some Inl run] have "isl r" "cache w' = cache w" by simp_all
    then show ?thesis
      using wf cache_wf_cong[of w' w] by auto
  next
    case (Inr data)
    have sys: "dict_get data ''system'' = JStr (member_name s)"
      using Inr by (rule call_adapter_system)
    from call_api_success[OF Some Inr run]
    have r: "r = Inr data \<or> isl r"
      and c: "cache w' = AList.update (cache_key s bn) (data, clock E (clock_reads w)) (cache w)"
      by simp_all
    have "cache_wf w'" using wf sys c by (rule cache_wf_update)
    then show ?thesis using r sys by auto
  qed
qed

lemma verify_with_system_wf:
  assumes wf: "cache_wf w" and run: "verify_with_system E bn s w = (r, w')"
  shows "cache_wf w' \<and> (\<forall>d. r = Inr d \<longrightarrow> dict_get d ''system'' = JStr (member_name s))"
proof (cases "map_of (cache w) (cache_key s bn)")
  case None
  then have "call_api E bn s w = (r, w')" using run by (simp add: verify_with_system_def)
  with wf show ?thesis by (rule call_api_wf)
next
  case (Some entry)
  obtain d t where entry: "entry = (d, t)" by (cases entry)
  let ?w1 = "w\<lparr>clock_reads := Suc (clock_reads w)\<rparr>"
  have wf1: "cache_wf ?w1" using wf by (simp add: cache_wf_def)
  show ?thesis
  proof (cases "endpoints s")
    case None
    then show ?thesis using run Some entry wf1
      by (auto simp: verify_with_system_def utcnow_def)
  next
    case ep: (Some ep)
    show ?thesis
    proof (cases "clock E (clock_reads w) - t < timedelta_seconds (cache_ttl ep)")
      case True
      then have "r = Inr d \<and> w' = ?w1"
        using run Some entry ep by (auto simp: verify_with_system_def utcnow_def)
      then show ?thesis using wf1 cache_wf_lookup[OF wf] Some entry by auto
    next
      case False
      then have "call_api E bn s ?w1 = (r, w')"
        using run Some entry ep by (simp add: verify_with_system_def utcnow_def)
      with wf1 show ?thesis by (rule call_api_wf)
    qed
  qed
qed

lemma gather_wf:
  assumes "cache_wf w" "gather E bn systems w = (rs, w')"
  shows "cache_wf w' \<and> length rs = length systems \<and> well_labelled (zip systems rs)"
  using assms
proof (induction systems arbitrary: w rs w')
  case Nil
  then show ?case by (simp add: well_labelled_def)
next
  case (Cons s rest)
  obtain r w1 where v: "verify_with_system E bn s w = (r, w1)"
    by (cases "verify_with_system E bn s w")
  obtain rs1 w2 where g: "gather E bn rest w1 = (rs1, w2)"
    by (cases "gather E bn rest w1")
  have eq: "rs = r # rs1" "w' = w2" using Cons.prems(2) v g by simp_all
  from verify_with_system_wf[OF Cons.prems(1) v]
  have wf1: "cache_wf w1" and lab: "\<forall>d. r = Inr d \<longrightarrow> dict_get d ''system'' = JStr (member_name s)"
    by simp_all
  from Cons.IH[OF wf1 g] show ?case
    using eq lab by (auto simp: well_labelled_def split: sum.splits)
qed

lemma adapter_outcomes_wf:
  assumes "cache_wf w"
  shows "well_labelled (adapter_outcomes E bn w)
       \<and> map fst (adapter_outcomes E bn w) = determine_relevant_systems bn"
proof -
  let ?sys = "determine_relevant_systems bn"
  let ?w0 = "snd (utcnow E w)"
  obtain rs w1 where g: "gather E bn ?sys ?w0 = (rs, w1)" by (cases "gather E bn ?sys ?w0")
  have "cache_wf ?w0" using assms by (simp add: cache_wf_def utcnow_def)
  from gather_wf[OF this g] show ?thesis
    using g by (simp add: adapter_outcomes_def)
qed


lemma set_field_keys: "map fst (set_field key k v c) = map fst c"
proof (cases "map_of c key")
  case None
  then show ?thesis by (simp add: set_field_def)
next
  case (Some sec)
  have "key \<in> fst ` set c" using map_of_SomeD[OF Some] by force
  then show ?thesis using Some by (simp add: set_field_def update_keys)
qed

lemma fold_set_field_keys:
  "map fst (fold (\<lambda>(k, v) acc. if k \<noteq> ''system'' then set_field key k v acc else acc) d c)
     = map fst c"
  by (induction d arbitrary: c) (auto simp: set_field_keys)

lemma merge_labelled:
  assumes "dict_get d ''system'' = JStr nm"
  shows "\<exists>c'. merge_verification_data c d = Inr c'
           \<and> map fst c' = (if JStr nm \<in> set (map fst c) then map fst c else map fst c @ [JStr nm])"
  using assms by (simp add: merge_verification_data_def Let_def fold_set_field_keys update_keys)

lemma failure_flag_is_failure: "is_failure_flag (failure_flag s e)"
  by (simp add: is_failure_flag_def failure_flag_def)

lemma check_flags_not_failure:
  assumes "check_data_inconsistencies c d s = Inr fl" "f \<in> set fl"
  shows "\<not> is_failure_flag f"
proof -
  obtain af ofl where a: "address_rule c d s = Inr af"
    and o: "ownership_rule c = Inr ofl"
    and fl: "fl = af @ status_rule c d @ ofl"
    using assms(1) by (rule check_data_inconsistencies_Inr)
  consider "f \<in> set af" | "f \<in> set (status_rule c d)" | "f \<in> set ofl"
    using assms(2) fl by auto
  then show ?thesis
  proof cases
    case 1
    from address_rule_flags[OF a this] show ?thesis by (simp add: is_failure_flag_def)
  next
    case 2
    from status_rule_flags[OF this] show ?thesis
      by (cases f) (auto simp: is_failure_flag_def)
  next
    case 3
    from ownership_rule_flags[OF o this] show ?thesis by (simp add: is_failure_flag_def)
  qed
qed

lemma process_result_failure:
  "process_result vr (s, Inl e) = Inr (vr\<lparr>red_flags := red_flags vr @ [failure_flag s e]\<rparr>)"
  by (simp add: process_result_def)

lemma process_result_success:
  assumes lab: "dict_get d ''system'' = JStr (member_name s)"
    and run: "process_result vr (s, Inr d) = Inr vr'"
  shows "\<exists>inc. check_data_inconsistencies (consolidated_data vr') d s = Inr inc
       \<and> red_flags vr' = red_flags vr @ inc
       \<and> systems_checked vr' = systems_checked vr @ [system_value s]
       \<and> map fst (consolidated_data vr')
           = (if JStr (member_name s) \<in> set (map fst (consolidated_data vr))
              then map fst (consolidated_data vr)
              else map fst (consolidated_data vr) @ [JStr (member_name s)])
       \<and> business_number vr' = business_number vr
       \<and> verification_timestamp vr' = verification_timestamp vr"
proof -
  obtain c' where m: "merge_verification_data (consolidated_data vr) d = Inr c'"
    and k: "map fst c' = (if JStr (member_name s) \<in> set (map fst (consolidated_data vr))
              then map fst (consolidated_data vr)
              else map fst (consolidated_data vr) @ [JStr (member_name s)])"
    using merge_labelled[OF lab] by blast
  show ?thesis
  proof (cases "check_data_inconsistencies c' d s")
    case (Inl e)
    then show ?thesis using run m by (simp add: process_result_def)
  next
    case (Inr inc)
    then have "vr' = vr\<lparr>systems_checked := systems_checked vr @ [system_value s],
                       consolidated_data := c', red_flags := red_flags vr @ inc\<rparr>"
      using run m by (simp add: process_result_def)
    then show ?thesis using Inr k by simp
  qed
qed



subsection \<open>The loop over the outcomes\<close>

lemma process_results_summary:
  assumes "well_labelled srs"
    and "process_results vr srs = Inr vr'"
    and "distinct (map fst (consolidated_data vr) @ map (\<lambda>s. JStr (member_name s)) (succeeded srs))"
  shows "systems_checked vr' = systems_checked vr @ map system_value (succeeded srs)
       \<and> map fst (consolidated_data vr')
           = map fst (consolidated_data vr) @ map (\<lambda>s. JStr (member_name s)) (succeeded srs)
       \<and> filter is_failure_flag (red_flags vr')
           = filter is_failure_flag (red_flags vr) @ map (\<lambda>(s, e). failure_flag s e) (failures srs)
       \<and> business_number vr' = business_number vr
       \<and> verification_timestamp vr' = verification_timestamp vr"
  using assms
proof (induction srs arbitrary: vr)
  case Nil
  then show ?case by simp
next
  case (Cons sr rest)
  obtain s r where sr: "sr = (s, r)" by (cases sr)
  have lab_rest: "well_labelled rest" using Cons.prems(1) by (simp add: well_labelled_def)
  show ?case
  proof (cases r)
    case (Inl e)
    let ?vr1 = "vr\<lparr>red_flags := red_flags vr @ [failure_flag s e]\<rparr>"
    have run: "process_results ?vr1 rest = Inr vr'"
      using Cons.prems(2) sr Inl by (simp add: process_result_failure)
    have d: "distinct (map fst (consolidated_data ?vr1)
               @ map (\<lambda>s. JStr (member_name s)) (succeeded rest))"
      using Cons.prems(3) sr Inl by simp
    from Cons.IH[OF lab_rest run d] show ?thesis
      using sr Inl by (simp add: failure_flag_is_failure)
  next
    case (Inr d)
    have lab: "dict_get d ''system'' = JStr (member_name s)"
      using Cons.prems(1) sr Inr by (simp add: well_labelled_def)
    obtain vr1 where p1: "process_result vr (s, Inr d) = Inr vr1"
      and run: "process_results vr1 rest = Inr vr'"
      using Cons.prems(2) sr Inr by (auto split: sum.splits)
    from process_result_success[OF lab p1] obtain inc where
      inc: "check_data_inconsistencies (consolidated_data vr1) d s = Inr inc"
      and rf: "red_flags vr1 = red_flags vr @ inc"
      and sc: "systems_checked vr1 = systems_checked vr @ [system_value s]"
      and ks: "map fst (consolidated_data vr1)
           = (if JStr (member_name s) \<in> set (map fst (consolidated_data vr))
              then map fst (consolidated_data vr)
              else map fst (consolidated_data vr) @ [JStr (member_name s)])"
      and bn: "business_number vr1 = business_number vr"
      and ts: "verification_timestamp vr1 = verification_timestamp vr"
      by blast
    have notin: "JStr (member_name s) \<notin> set (map fst (consolidated_data vr))"
      using Cons.prems(3) sr Inr by auto
    have ks': "map fst (consolidated_data vr1) = map fst (consolidated_data vr) @ [JStr (member_name s)]"
      using ks notin by simp
    have d1: "distinct (map fst (consolidated_data vr1)
               @ map (\<lambda>s. JStr (member_name s)) (succeeded rest))"
      using Cons.prems(3) sr Inr ks' by simp
    have nf: "filter is_failure_flag inc = []"
      using check_flags_not_failure[OF inc] by (simp add: filter_empty_conv)
    from Cons.IH[OF lab_rest run d1] show ?thesis
      using sr Inr rf sc ks' bn ts nf by simp
  qed
qed

lemma succeeded_subseq: "set (succeeded srs) \<subseteq> set (map fst srs)"
  by (induction srs rule: succeeded.induct) auto

lemma distinct_succeeded: "distinct (map fst srs) \<Longrightarrow> distinct (succeeded srs)"
  by (induction srs rule: succeeded.induct) (use succeeded_subseq in auto)

lemma length_succeeded_failures: "length (succeeded srs) + length (failures srs) = length srs"
  by (induction srs rule: succeeded.induct) auto

lemma distinct_relevant_systems: "distinct (determine_relevant_systems bn)"
  by (simp add: determine_relevant_systems_def)

lemma distinct_names: "distinct xs \<Longrightarrow> distinct (map (\<lambda>s. JStr (member_name s)) xs)"
  by (simp add: distinct_map inj_on_def) (meson member_name_inj)

lemma verify_result:
  assumes "fst (verify_business_across_systems E bn w) = Inr vr"
  shows "\<exists>vr1. process_results
            \<lparr>business_number = bn, verification_timestamp = clock E (clock_reads w),
             systems_checked = [], consolidated_data = [], red_flags = [],
             verification_score = 0\<rparr> (adapter_outcomes E bn w) = Inr vr1
        \<and> vr = vr1\<lparr>verification_score := calculate_verification_score vr1\<rparr>"
  using assms
  by (auto simp: verify_business_across_systems_def adapter_outcomes_def utcnow_def Let_def
      split: prod.splits sum.splits)



lemma cache_wf_initial: "cache_wf initial_world"
  by (simp add: cache_wf_def initial_world_def)

lemma verify_preserves_cache_wf:
  assumes "cache_wf w"
  shows "cache_wf (snd (verify_business_across_systems E bn w))"
proof -
  let ?sys = "determine_relevant_systems bn"
  let ?w0 = "snd (utcnow E w)"
  obtain rs w1 where g: "gather E bn ?sys ?w0 = (rs, w1)" by (cases "gather E bn ?sys ?w0")
  have "cache_wf ?w0" using assms by (simp add: cache_wf_def utcnow_def)
  from gather_wf[OF this g] have wf1: "cache_wf w1" by simp
  have store: "cache (snd (store_loop E bn res h xs w2)) = cache w2" for res h xs w2
    by (induction xs arbitrary: w2)
       (auto simp: utcnow_def Let_def db_execute_def split: prod.splits sum.splits option.splits)
  have store': "cache w3 = cache w2" if "store_loop E bn res h xs w2 = (r, w3)" for res h xs w2 r w3
    using store[of res h xs w2] that by simp
  have "cache (snd (verify_business_across_systems E bn w)) = cache w1"
    using g
    by (auto simp: verify_business_across_systems_def store_verification_results_def Let_def
        utcnow_def split: prod.splits sum.splits dest: store')
  then show ?thesis using wf1 by (simp add: cache_wf_def)
qed

subsection \<open>Concrete runs\<close>

lemmas run_simps =
  verify_business_across_systems_def determine_relevant_systems_def utcnow_def
  verify_with_system_def call_api_def call_adapter_def on_exception_def log_integration_def
  db_execute_def session_request_def fetch_def cache_key_def
  verify_cra_def verify_ised_def verify_isc_def verify_pspc_def verify_provincial_def
  cra_record_def ised_record_def isc_record_def pspc_record_def on_onbis_record_def
  qc_req_record_def encrypt_sensitive_data_def SystemEndpoint_init_def
  process_result_def merge_verification_data_def set_field_def failure_flag_def
  check_data_inconsistencies_def address_rule_def status_rule_def ownership_rule_def
  dict_get_def dict_get_default_def calculate_verification_score_def base_score_def
  store_verification_results_def snapshot_of_def timedelta_seconds_def
  initial_world_def example_env_def Let_def


lemma cra_only_run:
  "fst (verify_business_across_systems (example_env cra_only (\<lambda>n. None)) ''9'' initial_world)
     = Inr cra_only_result"
  by (simp add: run_simps cra_only_def cra_only_result_def)

subsection \<open>Failures, red flags and the score\<close>

lemma verify_unfold:
  "verify_business_across_systems E bn w =
     (case process_results (empty_results E bn w) (adapter_outcomes E bn w) of
        Inl e \<Rightarrow> (Inl e, world_after_gather E bn w)
      | Inr vr \<Rightarrow>
          (case store_verification_results E bn (scored vr) (world_after_gather E bn w) of
             (Inl e, w2) \<Rightarrow> (Inl e, w2)
           | (Inr u, w2) \<Rightarrow> (Inr (scored vr), w2)))"
  by (simp add: verify_business_across_systems_def adapter_outcomes_def world_after_gather_def
      empty_results_def scored_def Let_def split: prod.splits sum.splits)

lemma verify_summary:
  assumes wf: "cache_wf w"
    and res: "fst (verify_business_across_systems E bn w) = Inr vr"
  shows "systems_checked vr = map system_value (succeeded (adapter_outcomes E bn w))"
    and "map fst (consolidated_data vr)
           = map (\<lambda>s. JStr (member_name s)) (succeeded (adapter_outcomes E bn w))"
    and "filter is_failure_flag (red_flags vr)
           = map (\<lambda>(s, e). failure_flag s e) (failures (adapter_outcomes E bn w))"
    and "verification_score vr = calculate_verification_score vr"
proof -
  let ?out = "adapter_outcomes E bn w"
  from adapter_outcomes_wf[OF wf, of E bn]
  have lab: "well_labelled ?out" and sys: "map fst ?out = determine_relevant_systems bn"
    by simp_all
  have ds: "distinct (succeeded ?out)"
    using distinct_succeeded[of ?out] sys distinct_relevant_systems[of bn] by simp
  then have dn: "distinct (map (\<lambda>s. JStr (member_name s)) (succeeded ?out))"
    by (rule distinct_names)
  obtain vr1 where run: "process_results
            \<lparr>business_number = bn, verification_timestamp = clock E (clock_reads w),
             systems_checked = [], consolidated_data = [], red_flags = [],
             verification_score = 0\<rparr> ?out = Inr vr1"
    and vr: "vr = vr1\<lparr>verification_score := calculate_verification_score vr1\<rparr>"
    using verify_result[OF res] by blast
  from process_results_summary[OF lab run] dn
  show "systems_checked vr = map system_value (succeeded ?out)"
    and "map fst (consolidated_data vr) = map (\<lambda>s. JStr (member_name s)) (succeeded ?out)"
    and "filter is_failure_flag (red_flags vr) = map (\<lambda>(s, e). failure_flag s e) (failures ?out)"
    using vr by simp_all
  show "verification_score vr = calculate_verification_score vr"
    using vr by (simp add: calculate_verification_score_def base_score_def)
qed


text \<open>
  Claim C10. A failing adapter call appends exactly one red flag, the string
  \<^verbatim>\<open>Failed to verify with <system>: <error>\<close>; the flags of that form in the result are
  exactly those of the failed calls, so the red flags are non-empty when a call failed;
  and before the clamp every failed call lowers the score by 0.1 for the missing system
  and by 0.15 for its flag.
\<close>

theorem failing_adapter_flags_and_penalties:
  assumes wf: "cache_wf w"
    and res: "fst (verify_business_across_systems E bn w) = Inr vr"
  shows "process_result vr0 (s, Inl e)
           = Inr (vr0\<lparr>red_flags := red_flags vr0
                     @ [''Failed to verify with '' @ system_value s @ '': '' @ exn_str e]\<rparr>)
       \<and> filter is_failure_flag (red_flags vr)
           = map (\<lambda>(s, e). ''Failed to verify with '' @ system_value s @ '': '' @ exn_str e)
               (failures (adapter_outcomes E bn w))
       \<and> (failures (adapter_outcomes E bn w) \<noteq> [] \<longrightarrow> red_flags vr \<noteq> [])
       \<and> base_score vr
           = 1 - of_int (4 - int (length (determine_relevant_systems bn))) * (1 / 10)
               - of_nat (length (failures (adapter_outcomes E bn w))) * (1 / 10 + 15 / 100)
               - of_nat (length (filter (\<lambda>f. \<not> is_failure_flag f) (red_flags vr))) * (15 / 100)
       \<and> verification_score vr = max 0 (min 1 (base_score vr))"
proof -
  let ?out = "adapter_outcomes E bn w"
  note sm = verify_summary[OF wf res]
  have ff: "(\<lambda>(s, e). failure_flag s e)
             = (\<lambda>(s, e). ''Failed to verify with '' @ system_value s @ '': '' @ exn_str e)"
    by (simp add: failure_flag_def)
  have a: "process_result vr0 (s, Inl e)
           = Inr (vr0\<lparr>red_flags := red_flags vr0
                     @ [''Failed to verify with '' @ system_value s @ '': '' @ exn_str e]\<rparr>)"
    by (simp add: process_result_def failure_flag_def)
  have b: "filter is_failure_flag (red_flags vr)
           = map (\<lambda>(s, e). ''Failed to verify with '' @ system_value s @ '': '' @ exn_str e)
               (failures ?out)"
    using sm(3) ff by simp
  have c: "red_flags vr \<noteq> []" if "failures ?out \<noteq> []"
  proof
    assume "red_flags vr = []"
    then have "map (\<lambda>(s, e). failure_flag s e) (failures ?out) = []" using sm(3) by simp
    then show False using that by simp
  qed
  have k: "length (filter is_failure_flag (red_flags vr)) = length (failures ?out)"
    using sm(3) by (metis length_map)
  have total: "length (red_flags vr)
      = length (failures ?out) + length (filter (\<lambda>f. \<not> is_failure_flag f) (red_flags vr))"
    using sum_length_filter_compl[of is_failure_flag "red_flags vr"] k by simp
  have sys: "map fst ?out = determine_relevant_systems bn"
    using adapter_outcomes_wf[OF wf, of E bn] by simp
  have n: "length (succeeded ?out) + length (failures ?out) = length (determine_relevant_systems bn)"
    using length_succeeded_failures[of ?out] sys by (metis length_map)
  have m: "length (systems_checked vr) = length (succeeded ?out)"
    using sm(1) by simp
  have m': "int (length (systems_checked vr))
      = int (length (determine_relevant_systems bn)) - int (length (failures ?out))"
    using n m by linarith
  have d: "base_score vr
           = 1 - of_int (4 - int (length (determine_relevant_systems bn))) * (1 / 10)
               - of_nat (length (failures ?out)) * (1 / 10 + 15 / 100)
               - of_nat (length (filter (\<lambda>f. \<not> is_failure_flag f) (red_flags vr))) * (15 / 100)"
    unfolding base_score_def m' total by (simp add: algebra_simps)
  have e: "verification_score vr = max 0 (min 1 (base_score vr))"
    using sm(4) by (simp add: calculate_verification_score_def)
  show ?thesis using a b c d e by blast
qed


theorem failing_adapter_flags_and_penalties_witness:
  "filter is_failure_flag (red_flags cra_only_result)
     = map (\<lambda>(s, e). ''Failed to verify with '' @ system_value s @ '': '' @ exn_str e)
         (failures (adapter_outcomes (example_env cra_only (\<lambda>n. None)) ''9'' initial_world))
   \<and> length (failures (adapter_outcomes (example_env cra_only (\<lambda>n. None)) ''9'' initial_world)) = 3
   \<and> red_flags cra_only_result \<noteq> []
   \<and> base_score cra_only_result = 1 - 3 * (1 / 10 + 15 / 100)
   \<and> verification_score cra_only_result = 1 / 4"
proof -
  let ?out = "adapter_outcomes (example_env cra_only (\<lambda>n. None)) ''9'' initial_world"
  note main = failing_adapter_flags_and_penalties [OF cache_wf_initial cra_only_run]
  have flags: "filter is_failure_flag (red_flags cra_only_result) = red_flags cra_only_result"
    "length (red_flags cra_only_result) = 3"
    "filter (\<lambda>f. \<not> is_failure_flag f) (red_flags cra_only_result) = []"
    by (simp_all add: cra_only_result_def is_failure_flag_def)
  have eq: "filter is_failure_flag (red_flags cra_only_result)
     = map (\<lambda>(s, e). ''Failed to verify with '' @ system_value s @ '': '' @ exn_str e)
         (failures ?out)"
    using main by blast
  then have len: "length (failures ?out) = 3"
    using flags by (metis length_map)
  then have ne: "failures ?out \<noteq> []" by auto
  have nonempty: "red_flags cra_only_result \<noteq> []" using main ne by blast
  have base: "base_score cra_only_result
           = 1 - of_int (4 - int (length (determine_relevant_systems ''9''))) * (1 / 10)
               - of_nat (length (failures ?out)) * (1 / 10 + 15 / 100)
               - of_nat (length (filter (\<lambda>f. \<not> is_failure_flag f) (red_flags cra_only_result)))
                 * (15 / 100)"
    using main by blast
  have base': "base_score cra_only_result = 1 - 3 * (1 / 10 + 15 / 100)"
    unfolding base len flags(3) by (simp add: determine_relevant_systems_def)
  have score: "verification_score cra_only_result = 1 / 4"
    by (simp add: cra_only_result_def)
  show ?thesis using eq len nonempty base' score by blast
qed

lemma gather_length: "length (fst (gather E bn systems w)) = length systems"
proof (induction systems arbitrary: w)
  case Nil
  then show ?case by simp
next
  case (Cons s rest)
  obtain r w1 where v: "verify_with_system E bn s w = (r, w1)"
    by (cases "verify_with_system E bn s w")
  obtain rs w2 where g: "gather E bn rest w1 = (rs, w2)" by (cases "gather E bn rest w1")
  have "length rs = length rest" using Cons.IH[of w1] g by simp
  then show ?case using v g by simp
qed

lemma adapter_outcomes_systems:
  "map fst (adapter_outcomes E bn w) = determine_relevant_systems bn"
  by (simp add: adapter_outcomes_def Let_def gather_length)

lemma process_results_all_fail:
  "succeeded srs = [] \<Longrightarrow>
   process_results vr srs
     = Inr (vr\<lparr>red_flags := red_flags vr @ map (\<lambda>(s, e). failure_flag s e) (failures srs)\<rparr>)"
proof (induction srs arbitrary: vr rule: succeeded.induct)
  case 1
  then show ?case by simp
next
  case (2 system e rest)
  then show ?case by (simp add: process_result_failure)
next
  case (3 system result rest)
  then show ?case by simp
qed


text \<open>
  Claim C6, as the code has it. If no selected adapter succeeds, the call returns a
  result with empty \<^verbatim>\<open>systems_checked\<close> and \<^verbatim>\<open>consolidated_data\<close>, score 0, and as red
  flags one \<^verbatim>\<open>Failed to verify with <system>: <error>\<close> per selected system.
\<close>

theorem no_adapter_succeeds:
  assumes none: "succeeded (adapter_outcomes E bn w) = []"
  shows "fst (verify_business_across_systems E bn w)
       = Inr \<lparr>business_number = bn, verification_timestamp = clock E (clock_reads w),
              systems_checked = [], consolidated_data = [],
              red_flags = map (\<lambda>(s, e). ''Failed to verify with '' @ system_value s @ '': ''
                                  @ exn_str e) (failures (adapter_outcomes E bn w)),
              verification_score = 0\<rparr>
       \<and> length (failures (adapter_outcomes E bn w)) = length (determine_relevant_systems bn)"
proof -
  let ?out = "adapter_outcomes E bn w"
  let ?flags = "map (\<lambda>(s, e). failure_flag s e) (failures ?out)"
  let ?vr = "(empty_results E bn w)\<lparr>red_flags := ?flags\<rparr>"
  have ff: "(\<lambda>(s, e). failure_flag s e)
             = (\<lambda>(s, e). ''Failed to verify with '' @ system_value s @ '': '' @ exn_str e)"
    by (simp add: failure_flag_def)
  have len: "length (failures ?out) = length (determine_relevant_systems bn)"
    using length_succeeded_failures[of ?out] none adapter_outcomes_systems[of E bn w]
    by (metis add_0 length_map list.size(3))
  have four: "4 \<le> length (failures ?out)"
    using len by (simp add: determine_relevant_systems_def)
  have run: "process_results (empty_results E bn w) ?out = Inr ?vr"
    using process_results_all_fail[OF none, of "empty_results E bn w"]
    by (simp add: empty_results_def)
  have "(4::rat) \<le> of_nat (length (failures ?out))" using four by (metis of_nat_le_iff of_nat_numeral)
  then have "base_score ?vr \<le> 0"
    by (simp add: base_score_def empty_results_def)
  then have score: "calculate_verification_score ?vr = 0"
    by (simp add: calculate_verification_score_def)
  have store: "store_verification_results E bn (scored ?vr) w1 = (Inr (), w1)" for w1
    by (simp add: store_verification_results_def scored_def empty_results_def)
  have "fst (verify_business_across_systems E bn w) = Inr (scored ?vr)"
    by (simp add: verify_unfold run store)
  then show ?thesis
    using score len ff by (simp add: scored_def empty_results_def utcnow_def)
qed



lemma unreachable_outcomes:
  "adapter_outcomes (example_env unreachable (\<lambda>n. None)) ''9'' initial_world
     = [(CRA, Inl (Exn ClientError ''Cannot connect to host'')),
        (ISED, Inl (Exn ClientError ''Cannot connect to host'')),
        (ISC, Inl (Exn ClientError ''Cannot connect to host'')),
        (PSPC, Inl (Exn ClientError ''Cannot connect to host''))]"
  by (simp add: adapter_outcomes_def run_simps unreachable_def)

theorem no_adapter_succeeds_witness:
  "fst (verify_business_across_systems (example_env unreachable (\<lambda>n. None)) ''9'' initial_world)
     = Inr \<lparr>business_number = ''9'', verification_timestamp = 0,
            systems_checked = [], consolidated_data = [],
            red_flags = example_failure_flags, verification_score = 0\<rparr>"
proof -
  have none: "succeeded (adapter_outcomes (example_env unreachable (\<lambda>n. None)) ''9'' initial_world)
                = []"
    by (simp add: unreachable_outcomes)
  have fl: "map (\<lambda>(s, e). ''Failed to verify with '' @ system_value s @ '': '' @ exn_str e)
              (failures (adapter_outcomes (example_env unreachable (\<lambda>n. None)) ''9''
                 initial_world))
            = example_failure_flags"
    by (simp add: unreachable_outcomes example_failure_flags_def)
  have ts: "clock (example_env unreachable (\<lambda>n. None)) (clock_reads initial_world) = 0"
    by (simp add: example_env_def initial_world_def)
  show ?thesis
    using no_adapter_succeeds [OF none] unfolding fl ts by (rule conjunct1)
qed

text \<open>
  Claim C6 as stated fails: when no registry can be reached the red flags are the four
  failure messages, and none of them is a \<^verbatim>\<open>no-systems-reachable\<close> flag.
\<close>

theorem no_systems_reachable_flag_counterexample:
  "fst (verify_business_across_systems (example_env unreachable (\<lambda>n. None)) ''9'' initial_world)
     = Inr \<lparr>business_number = ''9'', verification_timestamp = 0,
            systems_checked = [], consolidated_data = [],
            red_flags = example_failure_flags, verification_score = 0\<rparr>
   \<and> ''no-systems-reachable'' \<notin> set example_failure_flags"
  by (simp add: run_simps unreachable_def example_failure_flags_def)



subsection \<open>Persistence failures\<close>



lemma call_api_log_fault:
  assumes ep: "endpoints s = Some ep" and fault: "db_fault E (db_attempts w) = Some e"
  shows "isl (fst (call_api E bn s w))"
proof -
  obtain r w1 where ca: "call_adapter E bn s ep w = (r, w1)"
    by (cases "call_adapter E bn s ep w")
  have a1: "db_attempts w1 = db_attempts w"
    using call_adapter_effect[OF ep ca] by auto
  show ?thesis
  proof (cases r)
    case (Inl e0)
    then have "call_api E bn s w = on_exception E bn s e0 w1"
      using ep ca by (simp add: call_api_def)
    then show ?thesis
      using on_exception_effect[of E bn s e0 w1] by (cases "on_exception E bn s e0 w1") simp
  next
    case (Inr data)
    let ?w3 = "(snd (utcnow E w1))\<lparr>cache := AList.update (cache_key s bn) (data, fst (utcnow E w1))
                    (cache (snd (utcnow E w1)))\<rparr>"
    have "db_attempts ?w3 = db_attempts w" using a1 by (simp add: utcnow_def)
    then obtain w4 where "log_integration E s bn True None ?w3 = (Inl e, w4)"
      using fault by (simp add: log_integration_def utcnow_def db_execute_def Let_def)
    then have "call_api E bn s w = on_exception E bn s e w4"
      using ep ca Inr by (cases "utcnow E w1") (auto simp: call_api_def Let_def)
    then show ?thesis
      using on_exception_effect[of E bn s e w4] by (cases "on_exception E bn s e w4") simp
  qed
qed












subsection \<open>Systems checked and consolidated data\<close>

lemma call_api_returns:
  assumes ep: "endpoints s = Some ep"
    and ok: "fst (call_adapter E bn s ep w) = Inr d"
    and nofault: "db_fault E (db_attempts w) = None"
  shows "fst (call_api E bn s w) = Inr d"
proof -
  obtain w1 where ca: "call_adapter E bn s ep w = (Inr d, w1)"
    using ok by (cases "call_adapter E bn s ep w") simp
  have a1: "db_attempts w1 = db_attempts w"
    using call_adapter_effect[OF ep ca] by auto
  let ?w3 = "(snd (utcnow E w1))\<lparr>cache := AList.update (cache_key s bn) (d, fst (utcnow E w1))
                  (cache (snd (utcnow E w1)))\<rparr>"
  have "db_attempts ?w3 = db_attempts w" using a1 by (simp add: utcnow_def)
  then obtain w4 where "log_integration E s bn True None ?w3 = (Inr (), w4)"
    using nofault by (simp add: log_integration_def utcnow_def db_execute_def Let_def)
  then show ?thesis
    using ep ca by (cases "utcnow E w1") (auto simp: call_api_def Let_def)
qed

lemma verify_with_system_miss_iff:
  assumes ep: "endpoints s = Some ep"
    and miss: "map_of (cache w) (cache_key s bn) = None"
  shows "fst (verify_with_system E bn s w) = Inr d
         \<longleftrightarrow> fst (call_adapter E bn s ep w) = Inr d \<and> db_fault E (db_attempts w) = None"
proof -
  have v: "verify_with_system E bn s w = call_api E bn s w"
    using miss by (simp add: verify_with_system_def)
  show ?thesis
  proof
    assume r: "fst (verify_with_system E bn s w) = Inr d"
    then obtain w' where run: "call_api E bn s w = (Inr d, w')"
      using v by (cases "call_api E bn s w") simp
    have "fst (call_adapter E bn s ep w) = Inr d" using ep run by (rule call_api_result)
    moreover have "db_fault E (db_attempts w) = None"
    proof (cases "db_fault E (db_attempts w)")
      case (Some e)
      from call_api_log_fault[OF ep Some, of bn] show ?thesis using run by simp
    qed simp
    ultimately show "fst (call_adapter E bn s ep w) = Inr d \<and> db_fault E (db_attempts w) = None"
      by simp
  next
    assume "fst (call_adapter E bn s ep w) = Inr d \<and> db_fault E (db_attempts w) = None"
    then show "fst (verify_with_system E bn s w) = Inr d"
      using call_api_returns[OF ep] v by simp
  qed
qed

lemma cra_adapter_answers:
  "fst (call_adapter (example_env cra_only f) ''9'' CRA cra_endpoint initial_world)
     = Inr cra_only_record"
  by (simp add: call_adapter_def verify_cra_def fetch_def session_request_def example_env_def
      cra_only_def cra_record_def cra_endpoint_def SystemEndpoint_init_def initial_world_def
      cra_only_record_def dict_get_def dict_get_default_def encrypt_sensitive_data_def)


text \<open>
  Claim C1, as the code has it. Let the cache be in a state the integrator can reach,
  and let \<^verbatim>\<open>verify_business_across_systems\<close> return a result. Call a selected system
  successful when its \<^verbatim>\<open>_verify_with_system\<close> call returned a record, and failed when
  that call raised. Then \<^verbatim>\<open>systems_checked\<close> lists the successful systems, in order;
  \<^verbatim>\<open>consolidated_data\<close> has exactly one entry for each of them, under the system's
  name, and none for any other system; and successful and failed systems together are
  the selected ones. On a cache miss the call returns a record exactly when the adapter
  returns it and the audit log is written.
\<close>

theorem consolidated_matches_successes:
  assumes wf: "cache_wf w"
    and res: "fst (verify_business_across_systems E bn w) = Inr vr"
  shows "systems_checked vr = map system_value (succeeded (adapter_outcomes E bn w))
       \<and> map fst (consolidated_data vr)
           = map (\<lambda>s. JStr (member_name s)) (succeeded (adapter_outcomes E bn w))
       \<and> length (systems_checked vr) = length (succeeded (adapter_outcomes E bn w))
       \<and> length (consolidated_data vr) = length (succeeded (adapter_outcomes E bn w))
       \<and> distinct (map fst (consolidated_data vr))
       \<and> length (succeeded (adapter_outcomes E bn w)) + length (failures (adapter_outcomes E bn w))
           = length (determine_relevant_systems bn)
       \<and> (\<forall>s. s \<notin> set (succeeded (adapter_outcomes E bn w))
              \<longrightarrow> map_of (consolidated_data vr) (JStr (member_name s)) = None)
       \<and> (endpoints s0 = Some ep \<and> map_of (cache w0) (cache_key s0 bn0) = None
            \<longrightarrow> (fst (verify_with_system E0 bn0 s0 w0) = Inr d
                  \<longleftrightarrow> fst (call_adapter E0 bn0 s0 ep w0) = Inr d
                      \<and> db_fault E0 (db_attempts w0) = None))"
proof -
  let ?out = "adapter_outcomes E bn w"
  let ?names = "map (\<lambda>s. JStr (member_name s)) (succeeded ?out)"
  from adapter_outcomes_wf[OF wf, of E bn]
  have lab: "well_labelled ?out" and sys: "map fst ?out = determine_relevant_systems bn"
    by simp_all
  have ds: "distinct (succeeded ?out)"
    using distinct_succeeded[of ?out] sys distinct_relevant_systems[of bn] by simp
  then have dn: "distinct ?names" by (rule distinct_names)
  obtain vr1 where run: "process_results
            \<lparr>business_number = bn, verification_timestamp = clock E (clock_reads w),
             systems_checked = [], consolidated_data = [], red_flags = [],
             verification_score = 0\<rparr> ?out = Inr vr1"
    and vr: "vr = vr1\<lparr>verification_score := calculate_verification_score vr1\<rparr>"
    using verify_result[OF res] by blast
  from process_results_summary[OF lab run] dn
  have sc: "systems_checked vr = map system_value (succeeded ?out)"
    and ks: "map fst (consolidated_data vr) = ?names"
    using vr by simp_all
  have len: "length (succeeded ?out) + length (failures ?out) = length (determine_relevant_systems bn)"
    using length_succeeded_failures[of ?out] sys by (metis length_map)
  have l2: "length (consolidated_data vr) = length (succeeded ?out)"
    using ks by (metis length_map)
  have absent: "map_of (consolidated_data vr) (JStr (member_name s)) = None"
    if "s \<notin> set (succeeded ?out)" for s
  proof -
    have "JStr (member_name s) \<notin> set ?names"
      using that by (auto dest: member_name_inj)
    then have "JStr (member_name s) \<notin> fst ` set (consolidated_data vr)"
      using ks by (metis set_map)
    then show ?thesis by (simp add: map_of_eq_None_iff)
  qed
  have call: "fst (verify_with_system E0 bn0 s0 w0) = Inr d
                  \<longleftrightarrow> fst (call_adapter E0 bn0 s0 ep w0) = Inr d
                      \<and> db_fault E0 (db_attempts w0) = None"
    if "endpoints s0 = Some ep" "map_of (cache w0) (cache_key s0 bn0) = None"
    using that by (rule verify_with_system_miss_iff)
  have first: "systems_checked vr = map system_value (succeeded ?out)
       \<and> map fst (consolidated_data vr) = ?names
       \<and> length (systems_checked vr) = length (succeeded ?out)
       \<and> length (consolidated_data vr) = length (succeeded ?out)
       \<and> distinct (map fst (consolidated_data vr))
       \<and> length (succeeded ?out) + length (failures ?out)
           = length (determine_relevant_systems bn)
       \<and> (\<forall>s. s \<notin> set (succeeded ?out)
              \<longrightarrow> map_of (consolidated_data vr) (JStr (member_name s)) = None)"
    using sc ks l2 dn len absent by simp
  show ?thesis using first call by blast
qed



theorem consolidated_matches_successes_witness:
  "systems_checked cra_only_result
     = map system_value
         (succeeded (adapter_outcomes (example_env cra_only (\<lambda>n. None)) ''9'' initial_world))
   \<and> map fst (consolidated_data cra_only_result)
     = map (\<lambda>s. JStr (member_name s))
         (succeeded (adapter_outcomes (example_env cra_only (\<lambda>n. None)) ''9'' initial_world))
   \<and> length (systems_checked cra_only_result) = 1
   \<and> length (consolidated_data cra_only_result) = 1
   \<and> length (failures (adapter_outcomes (example_env cra_only (\<lambda>n. None)) ''9'' initial_world))
     = 3
   \<and> fst (verify_with_system (example_env cra_only (\<lambda>n. None)) ''9'' CRA initial_world)
     = Inr cra_only_record"
proof -
  let ?E = "example_env cra_only (\<lambda>n. None)"
  note main = consolidated_matches_successes [OF cache_wf_initial cra_only_run,
      where ?s0.0 = CRA and ep = cra_endpoint and ?w0.0 = initial_world and ?bn0.0 = "''9''"
        and ?E0.0 = ?E and d = cra_only_record]
  have one: "length (systems_checked cra_only_result) = 1"
    "length (consolidated_data cra_only_result) = 1"
    "length (determine_relevant_systems ''9'') = 4"
    by (simp_all add: cra_only_result_def determine_relevant_systems_def)
  have ep: "endpoints CRA = Some cra_endpoint" by (simp add: cra_endpoint_def)
  have miss: "map_of (cache initial_world) (cache_key CRA ''9'') = None"
    by (simp add: initial_world_def)
  have nofault: "db_fault ?E (db_attempts initial_world) = None"
    by (simp add: example_env_def)
  have call: "fst (verify_with_system ?E ''9'' CRA initial_world) = Inr cra_only_record"
    using main ep miss nofault cra_adapter_answers[of "\<lambda>n. None"] by blast
  have rest: "systems_checked cra_only_result = map system_value (succeeded (adapter_outcomes ?E ''9'' initial_world))
   \<and> map fst (consolidated_data cra_only_result)
     = map (\<lambda>s. JStr (member_name s)) (succeeded (adapter_outcomes ?E ''9'' initial_world))
   \<and> length (succeeded (adapter_outcomes ?E ''9'' initial_world))
       + length (failures (adapter_outcomes ?E ''9'' initial_world))
       = length (determine_relevant_systems ''9'')
   \<and> length (systems_checked cra_only_result)
       = length (succeeded (adapter_outcomes ?E ''9'' initial_world))"
    using main by blast
  show ?thesis using rest one call by simp
qed


text \<open>
  Claim C1 as stated fails when success is the adapter's: the CRA adapter returns its
  record, which is cached, but the audit log cannot be written, so the call raises and
  the result has neither a checked system nor a consolidated entry.
\<close>

theorem adapter_succeeds_audit_fails_counterexample:
  "fst (call_adapter (example_env cra_only (db_down_from 0)) ''9'' CRA cra_endpoint
          initial_world) = Inr cra_only_record
   \<and> fst (verify_business_across_systems (example_env cra_only (db_down_from 0)) ''9''
          initial_world) = Inr audit_down_result
   \<and> map fst (cache (snd (verify_business_across_systems
          (example_env cra_only (db_down_from 0)) ''9'' initial_world))) = [''cra:9'']
   \<and> systems_checked audit_down_result = []
   \<and> consolidated_data audit_down_result = []"
proof -
  have "\<exists>w'. verify_business_across_systems (example_env cra_only (db_down_from 0)) ''9''
               initial_world = (Inr audit_down_result, w')
          \<and> map fst (cache w') = [''cra:9'']"
    by (simp add: run_simps cra_only_def db_down_from_def audit_down_result_def)
  then show ?thesis
    using cra_adapter_answers[of "db_down_from 0"] by (auto simp: audit_down_result_def)
qed


end
